theory Spec2Isabelle
  imports Complex_Main "HOL-Library.Word" "HOL-Library.Monad_Syntax" "HOL-Library.Multiset"
begin

section \<open>Volumes\<close>

text \<open>
  The routines \<^verbatim>\<open>refine_aseg\<close> and \<^verbatim>\<open>grow_mask\<close> of
  \<^verbatim>\<open>niworkflows/interfaces/freesurfer.py\<close> work on three-dimensional numpy arrays.
  An array is modelled by its shape and the function from a voxel index to the element
  stored there. Only the elements at the indices inside the shape are elements of the
  array; every read of the model is at such an index.
\<close>

type_synonym voxel = "int \<times> int \<times> int"

type_synonym dims = "nat \<times> nat \<times> nat"

datatype 'a ndarray = NDArray (shape: dims) (item: "voxel \<Rightarrow> 'a")

text \<open>The numpy dtype \<^verbatim>\<open>uint8\<close>.\<close>

type_synonym uint8 = "8 word"

fun vadd :: "voxel \<Rightarrow> voxel \<Rightarrow> voxel" where
  "vadd (i, j, k) (a, b, c) = (i + a, j + b, k + c)"

fun vsub :: "voxel \<Rightarrow> voxel \<Rightarrow> voxel" where
  "vsub (i, j, k) (a, b, c) = (i - a, j - b, k - c)"

fun in_bounds :: "dims \<Rightarrow> voxel \<Rightarrow> bool" where
  "in_bounds (nx, ny, nz) (i, j, k) =
     (0 \<le> i \<and> i < int nx \<and> 0 \<le> j \<and> j < int ny \<and> 0 \<le> k \<and> k < int nz)"

text \<open>All indices of an array of the given shape, in C order (the order of
  \<^verbatim>\<open>np.ndindex\<close> and of the rows of \<^verbatim>\<open>np.argwhere\<close>).\<close>

fun indices :: "dims \<Rightarrow> voxel list" where
  "indices (nx, ny, nz) =
     concat (map (\<lambda>i. concat (map (\<lambda>j. map (\<lambda>k. (i, j, k)) [0..int nz - 1]) [0..int ny - 1]))
       [0..int nx - 1])"

text \<open>\<^verbatim>\<open>a.copy()\<close>: a new array with the same shape and elements.\<close>

definition copy :: "'a ndarray \<Rightarrow> 'a ndarray" where
  "copy a = NDArray (shape a) (item a)"

text \<open>\<^verbatim>\<open>a[cond(a)] = c\<close>, the assignment through a boolean mask computed from
  the array itself; the result is the array after the assignment.\<close>

definition set_where :: "('a \<Rightarrow> bool) \<Rightarrow> 'a \<Rightarrow> 'a ndarray \<Rightarrow> 'a ndarray" where
  "set_where cond c a = NDArray (shape a) (\<lambda>p. if cond (item a p) then c else item a p)"

text \<open>\<^verbatim>\<open>a[p] = v\<close> for an index \<open>p\<close>.\<close>

definition setitem :: "'a ndarray \<Rightarrow> voxel \<Rightarrow> 'a \<Rightarrow> 'a ndarray" where
  "setitem a p v = NDArray (shape a) ((item a)(p := v))"

text \<open>\<^verbatim>\<open>a.astype(np.uint8)\<close> on an array of integers keeps the low eight bits
  (a negative label \<open>-1\<close> becomes \<open>255\<close>); on an array of booleans it gives 0 and 1.\<close>

definition astype_uint8 :: "int ndarray \<Rightarrow> uint8 ndarray" where
  "astype_uint8 a = NDArray (shape a) (\<lambda>p. word_of_int (item a p))"

definition bool_astype_uint8 :: "bool ndarray \<Rightarrow> uint8 ndarray" where
  "bool_astype_uint8 a = NDArray (shape a) (\<lambda>p. if item a p then 1 else 0)"

text \<open>The morphology routines of scipy read an array that is not boolean as the
  boolean array of its non-zero elements.\<close>

definition nonzero :: "uint8 ndarray \<Rightarrow> bool ndarray" where
  "nonzero a = NDArray (shape a) (\<lambda>p. item a p \<noteq> 0)"

definition logical_not :: "bool ndarray \<Rightarrow> bool ndarray" where
  "logical_not a = NDArray (shape a) (\<lambda>p. \<not> item a p)"

definition zeros :: "dims \<Rightarrow> bool ndarray" where
  "zeros s = NDArray s (\<lambda>p. False)"

text \<open>Two arrays of one shape hold the same elements.\<close>

definition array_equal :: "'a ndarray \<Rightarrow> 'a ndarray \<Rightarrow> bool" where
  "array_equal a b = (\<forall>p \<in> set (indices (shape a)). item a p = item b p)"

section \<open>Binary morphology (skimage.morphology, scipy.ndimage)\<close>

text \<open>
  \<^verbatim>\<open>skimage.morphology.ball(radius)\<close> builds the cube of side \<open>2 * radius + 1\<close> over the
  grid \<open>-radius .. radius\<close> on each axis and sets the elements with
  \<open>x\<^sup>2 + y\<^sup>2 + z\<^sup>2 \<le> radius\<^sup>2\<close>. The structuring element is kept as the list of the offsets
  of its set elements from its centre element.
\<close>

definition ball :: "nat \<Rightarrow> voxel list" where
  "ball radius =
     (let r = int radius in
      concat (map (\<lambda>z. concat (map (\<lambda>y. concat (map (\<lambda>x.
        if x * x + y * y + z * z \<le> r * r then [(z, y, x)] else []) [- r..r])) [- r..r])) [- r..r]))"

text \<open>
  \<^verbatim>\<open>skimage.morphology.binary_dilation(image, selem)\<close> calls scipy's
  \<^verbatim>\<open>binary_dilation\<close> with the default border value 0: a voxel is set when the
  image is set at some voxel of the structuring element mirrored around it; outside the
  array the image counts as not set.
\<close>

definition binary_dilation :: "bool ndarray \<Rightarrow> voxel list \<Rightarrow> bool ndarray" where
  "binary_dilation img selem =
     NDArray (shape img)
       (\<lambda>p. \<exists>b \<in> set selem. in_bounds (shape img) (vsub p b) \<and> item img (vsub p b))"

text \<open>
  \<^verbatim>\<open>skimage.morphology.binary_erosion(image, selem)\<close> calls scipy's
  \<^verbatim>\<open>binary_erosion\<close> with \<^verbatim>\<open>border_value=True\<close>: a voxel is set when the image
  is set at every voxel of the structuring element placed on it; outside the array the
  image counts as set.
\<close>

definition binary_erosion :: "bool ndarray \<Rightarrow> voxel list \<Rightarrow> bool ndarray" where
  "binary_erosion img selem =
     NDArray (shape img)
       (\<lambda>p. \<forall>b \<in> set selem. in_bounds (shape img) (vadd p b) \<longrightarrow> item img (vadd p b))"

text \<open>\<^verbatim>\<open>binary_closing\<close>: a dilation, then an erosion. \<^verbatim>\<open>binary_opening\<close>:
  an erosion, then a dilation.\<close>

definition binary_closing :: "bool ndarray \<Rightarrow> voxel list \<Rightarrow> bool ndarray" where
  "binary_closing img selem = binary_erosion (binary_dilation img selem) selem"

definition binary_opening :: "bool ndarray \<Rightarrow> voxel list \<Rightarrow> bool ndarray" where
  "binary_opening img selem = binary_dilation (binary_erosion img selem) selem"

text \<open>
  One pass of \<^verbatim>\<open>scipy.ndimage.binary_dilation(input, structure, mask=mask,
  border_value=border_value)\<close>: only the elements where the mask is set are recomputed,
  the others keep their value; outside the array the input counts as \<open>border_value\<close>.
\<close>

definition masked_dilation :: "voxel list \<Rightarrow> bool ndarray \<Rightarrow> bool \<Rightarrow> bool ndarray \<Rightarrow> bool ndarray" where
  "masked_dilation structure msk border_value input =
     NDArray (shape input)
       (\<lambda>p. if item msk p
            then \<exists>b \<in> set structure.
                   if in_bounds (shape input) (vsub p b) then item input (vsub p b) else border_value
            else item input p)"

text \<open>
  \<^verbatim>\<open>iterations=-1\<close>: the pass is repeated until the result does not change any more.
  Not returning is the value \<open>None\<close>.
\<close>

partial_function (option) iterate_dilation ::
  "voxel list \<Rightarrow> bool ndarray \<Rightarrow> bool \<Rightarrow> bool ndarray \<Rightarrow> bool ndarray option" where
  "iterate_dilation structure msk border_value input =
     (if array_equal (masked_dilation structure msk border_value input) input
      then Some (masked_dilation structure msk border_value input)
      else iterate_dilation structure msk border_value
             (masked_dilation structure msk border_value input))"

text \<open>
  \<^verbatim>\<open>scipy.ndimage.binary_fill_holes(input, structure)\<close>: the complement of the input is
  flooded from outside the array (an empty array is dilated with border value 1 inside the
  mask \<^verbatim>\<open>logical_not(input)\<close> until it is stable), and the result is the complement of
  what the flood reached.
\<close>

definition binary_fill_holes :: "bool ndarray \<Rightarrow> voxel list \<Rightarrow> bool ndarray option" where
  "binary_fill_holes input structure =
     do {
       output \<leftarrow> iterate_dilation structure (logical_not input) True (zeros (shape input));
       Some (logical_not output)
     }"

section \<open>refine_aseg\<close>

text \<open>
  \<^verbatim>\<open>bmask = aseg.copy(); bmask[bmask > 0] = 1; bmask = bmask.astype(np.uint8)\<close>
\<close>

definition binarize :: "int ndarray \<Rightarrow> uint8 ndarray" where
  "binarize aseg = astype_uint8 (set_where (\<lambda>v. v > 0) 1 (copy aseg))"

text \<open>
  \<^verbatim>\<open>selem = sim.ball(ball_size)
  newmask = sim.binary_closing(bmask, selem)
  newmask = binary_fill_holes(newmask.astype(np.uint8), selem).astype(np.uint8)
  return newmask.astype(np.uint8)\<close>
\<close>

definition refine_aseg :: "int ndarray \<Rightarrow> nat \<Rightarrow> uint8 ndarray option" where
  "refine_aseg aseg ball_size =
     (let bmask = binarize aseg;
          selem = ball ball_size;
          newmask = binary_closing (nonzero bmask) selem
      in do {
        filled \<leftarrow> binary_fill_holes (nonzero (bool_astype_uint8 newmask)) selem;
        Some (bool_astype_uint8 filled)
      })"

section \<open>grow_mask\<close>

text \<open>\<^verbatim>\<open>np.zeros_like(aseg, dtype=np.uint8)\<close>. The auxiliary segmentation is only ever
  compared with the code 2, so its elements are kept as integers whatever its dtype.\<close>

definition zeros_like :: "int ndarray \<Rightarrow> int ndarray" where
  "zeros_like a = NDArray (shape a) (\<lambda>p. 0)"

text \<open>\<^verbatim>\<open>a != c\<close>, elementwise.\<close>

definition not_equal :: "'a ndarray \<Rightarrow> 'a \<Rightarrow> bool ndarray" where
  "not_equal a c = NDArray (shape a) (\<lambda>p. item a p \<noteq> c)"

text \<open>\<^verbatim>\<open>a[m] = c\<close> for a boolean array \<open>m\<close>: numpy raises \<^verbatim>\<open>IndexError\<close> when the
  shape of \<open>m\<close> is not the shape of \<open>a\<close>. Raising is the value \<open>None\<close>.\<close>

definition set_mask :: "'a ndarray \<Rightarrow> bool ndarray \<Rightarrow> 'a \<Rightarrow> 'a ndarray option" where
  "set_mask a m c =
     (if shape m = shape a
      then Some (NDArray (shape a) (\<lambda>p. if item m p then c else item a p))
      else None)"

text \<open>\<^verbatim>\<open>a[tuple(pixel)]\<close> for a row \<open>pixel\<close> of \<^verbatim>\<open>np.argwhere\<close> (its entries are
  never negative): numpy raises \<^verbatim>\<open>IndexError\<close> when the index is outside the array.\<close>

definition getitem :: "'a ndarray \<Rightarrow> voxel \<Rightarrow> 'a option" where
  "getitem a p = (if in_bounds (shape a) p then Some (item a p) else None)"

text \<open>\<^verbatim>\<open>a - b\<close> for a boolean array \<open>a\<close> and a \<^verbatim>\<open>uint8\<close> array \<open>b\<close>: numpy
  computes in \<^verbatim>\<open>uint8\<close>, where the subtraction wraps around.\<close>

definition subtract :: "bool ndarray \<Rightarrow> uint8 ndarray \<Rightarrow> uint8 ndarray" where
  "subtract a b = NDArray (shape a) (\<lambda>p. item (bool_astype_uint8 a) p - item b p)"

text \<open>\<^verbatim>\<open>np.argwhere(a > 0)\<close>: the indices of the positive elements, in C order.\<close>

definition argwhere_positive :: "uint8 ndarray \<Rightarrow> voxel list" where
  "argwhere_positive a = filter (\<lambda>p. item a p > 0) (indices (shape a))"

text \<open>
  The indices that the slice \<^verbatim>\<open>start:stop\<close> selects on an axis of length \<open>n\<close>
  (Python's \<^verbatim>\<open>slice(start, stop).indices(n)\<close>): a negative bound counts from the end of
  the axis, and a bound that is still outside \<open>0 .. n\<close> is clipped to it.
\<close>

definition slice_bound :: "nat \<Rightarrow> int \<Rightarrow> int" where
  "slice_bound n i = (if i < 0 then max (i + int n) 0 else min i (int n))"

definition slice_indices :: "nat \<Rightarrow> int \<Rightarrow> int \<Rightarrow> int list" where
  "slice_indices n start stop = [slice_bound n start..slice_bound n stop - 1]"

text \<open>
  \<^verbatim>\<open>window = gm[pixel[0] - ww:pixel[0] + ww, pixel[1] - ww:pixel[1] + ww,
  pixel[2] - ww:pixel[2] + ww]\<close>: the indices read, and the elements read there.
\<close>

fun window_indices :: "dims \<Rightarrow> voxel \<Rightarrow> int \<Rightarrow> voxel list" where
  "window_indices (nx, ny, nz) (i, j, k) ww =
     concat (map (\<lambda>x. concat (map (\<lambda>y. map (\<lambda>z. (x, y, z))
       (slice_indices nz (k - ww) (k + ww))) (slice_indices ny (j - ww) (j + ww))))
       (slice_indices nx (i - ww) (i + ww)))"

definition gm_window :: "real ndarray \<Rightarrow> voxel \<Rightarrow> int \<Rightarrow> real list" where
  "gm_window gm pixel ww = map (item gm) (window_indices (shape gm) pixel ww)"

text \<open>
  The statistics of the loop body,
  \<^verbatim>\<open>
  mu = window[window > 0].mean()
  sigma = max(window[window > 0].std(), 1.0e-5)
  zstat = abs(anat[tuple(pixel)] - mu) / sigma
  \<close>
  are computed in floating-point arithmetic, in the precision of the arrays that the caller
  passes (\<^verbatim>\<open>float32\<close> in \<^verbatim>\<open>RefineBrainMask\<close>). The model does not fix that
  arithmetic: it takes the computation as a parameter. For the positive intensities of the
  window, in the order of the window, and the intensity of the voxel, a function of the
  type \<open>zstat_fn\<close> gives the number that the three lines leave in \<^verbatim>\<open>zstat\<close>, or
  \<open>None\<close> when that value is not a finite number (an infinity or a NaN). Nothing else is
  assumed of it. The intensities of the volumes themselves are finite numbers.
\<close>

type_synonym zstat_fn = "real list \<Rightarrow> real \<Rightarrow> real option"

text \<open>\<^verbatim>\<open>zstat < zval\<close>: false when \<^verbatim>\<open>zstat\<close> is not a finite number (it is never
  negative, so it is then \<open>+\<infinity>\<close> or a NaN).\<close>

definition zstat_below :: "real option \<Rightarrow> real \<Rightarrow> bool" where
  "zstat_below zstat zval = (case zstat of Some z \<Rightarrow> z < zval | None \<Rightarrow> False)"

text \<open>
  The three lines over the real numbers, without rounding: \<^verbatim>\<open>x.mean()\<close>,
  \<^verbatim>\<open>x.std()\<close> (the population standard deviation), the floor on \<^verbatim>\<open>sigma\<close> and the
  quotient. This is the function that the floating-point computation approximates; it
  stands in for it in the examples.
\<close>

definition mean :: "real list \<Rightarrow> real" where
  "mean xs = sum_list xs / real (length xs)"

definition std :: "real list \<Rightarrow> real" where
  "std xs = sqrt (mean (map (\<lambda>x. \<bar>x - mean xs\<bar> ^ 2) xs))"

definition exact_zstat :: zstat_fn where
  "exact_zstat window_positive a =
     (let mu = mean window_positive;
          sigma = max (std window_positive) (1 / 100000)
      in Some (\<bar>a - mu\<bar> / sigma))"

text \<open>
  The statistical test of the loop body:
  \<^verbatim>\<open>
  window = gm[...]
  if np.any(window > 0):
      mu = window[window > 0].mean()
      sigma = max(window[window > 0].std(), 1.0e-5)
      zstat = abs(anat[tuple(pixel)] - mu) / sigma
      refined[tuple(pixel)] = int(zstat < zval)
  \<close>
\<close>

definition zscore_step ::
  "zstat_fn \<Rightarrow> real ndarray \<Rightarrow> real ndarray \<Rightarrow> int \<Rightarrow> real \<Rightarrow> uint8 ndarray \<Rightarrow> voxel
     \<Rightarrow> uint8 ndarray option" where
  "zscore_step zs gm anat ww zval refined pixel =
     (let window = gm_window gm pixel ww in
      if filter (\<lambda>v. v > 0) window \<noteq> [] then
        do {
          a \<leftarrow> getitem anat pixel;
          let zstat = zs (filter (\<lambda>v. v > 0) window) a;
          Some (setitem refined pixel (if zstat_below zstat zval then 1 else 0))
        }
      else Some refined)"

text \<open>
  The loop body:
  \<^verbatim>\<open>
  if ants_segs[tuple(pixel)] == 2:
      refined[tuple(pixel)] = 1
      continue
  \<close>
  and then the statistical test.
\<close>

definition grow_step ::
  "zstat_fn \<Rightarrow> real ndarray \<Rightarrow> real ndarray \<Rightarrow> int ndarray \<Rightarrow> int \<Rightarrow> real \<Rightarrow> uint8 ndarray
     \<Rightarrow> voxel \<Rightarrow> uint8 ndarray option" where
  "grow_step zs gm anat ants_segs ww zval refined pixel =
     do {
       c \<leftarrow> getitem ants_segs pixel;
       if c = 2 then Some (setitem refined pixel 1)
       else zscore_step zs gm anat ww zval refined pixel
     }"

text \<open>\<^verbatim>\<open>for pixel in indices: ...\<close>, the body given as a function of the mask being
  written and the pixel.\<close>

fun grow_loop ::
  "(uint8 ndarray \<Rightarrow> voxel \<Rightarrow> uint8 ndarray option) \<Rightarrow> uint8 ndarray \<Rightarrow> voxel list
     \<Rightarrow> uint8 ndarray option" where
  "grow_loop body refined [] = Some refined"
| "grow_loop body refined (pixel # pixels) =
     do { refined' \<leftarrow> body refined pixel; grow_loop body refined' pixels }"

text \<open>\<^verbatim>\<open>newrefmask = sim.binary_dilation(refined, selem) - refined\<close>\<close>

definition candidate_shell :: "uint8 ndarray \<Rightarrow> voxel list \<Rightarrow> uint8 ndarray" where
  "candidate_shell refined selem = subtract (binary_dilation (nonzero refined) selem) refined"

text \<open>
  The arrays of the caller that \<^verbatim>\<open>grow_mask(anat, aseg, ants_segs)\<close> is given
  (three different array objects; \<^verbatim>\<open>ants_segs\<close> may be \<^verbatim>\<open>None\<close>). The function
  returns its mask together with these arrays as they are after the call.
\<close>

record arrays =
  anat :: "real ndarray"
  aseg :: "int ndarray"
  ants_segs :: "int ndarray option"

text \<open>
  \<^verbatim>\<open>
  def grow_mask(anat, aseg, ants_segs=None, ww=7, zval=2.0, bw=4):
      selem = sim.ball(bw)
      if ants_segs is None:
          ants_segs = np.zeros_like(aseg, dtype=np.uint8)
      aseg[aseg == 42] = 3  # Collapse both hemispheres
      gm = anat.copy()
      gm[aseg != 3] = 0
      refined = refine_aseg(aseg)
      newrefmask = sim.binary_dilation(refined, selem) - refined
      indices = np.argwhere(newrefmask > 0)
      for pixel in indices: ...
      refined = sim.binary_opening(refined, selem)
      return refined
  \<close>
  The assignment \<^verbatim>\<open>aseg[aseg == 42] = 3\<close> writes into the array of the caller;
  \<^verbatim>\<open>ants_segs = np.zeros_like(...)\<close> only rebinds the local name. The radius \<open>bw\<close>
  is a natural number (\<^verbatim>\<open>sim.ball\<close> raises on a negative one). The first argument
  of the model is the floating-point computation of \<^verbatim>\<open>zstat\<close>.
\<close>

definition grow_mask ::
  "zstat_fn \<Rightarrow> arrays \<Rightarrow> int \<Rightarrow> real \<Rightarrow> nat \<Rightarrow> (bool ndarray \<times> arrays) option" where
  "grow_mask zs st ww zval bw =
     (let selem = ball bw;
          ants = (case ants_segs st of None \<Rightarrow> zeros_like (aseg st) | Some a \<Rightarrow> a);
          st = st\<lparr>aseg := set_where (\<lambda>v. v = 42) 3 (aseg st)\<rparr>
      in do {
        gm \<leftarrow> set_mask (copy (anat st)) (not_equal (aseg st) 3) 0;
        refined \<leftarrow> refine_aseg (aseg st) 4;
        let newrefmask = candidate_shell refined selem;
        let pixels = argwhere_positive newrefmask;
        refined \<leftarrow> grow_loop (grow_step zs gm (anat st) ants ww zval) refined pixels;
        Some (binary_opening (nonzero refined) selem, st)
      })"

text \<open>
  The variant of \<^verbatim>\<open>grow_mask\<close> with the branch on the auxiliary segmentation removed
  from the loop body: every candidate voxel goes through the statistical test.
\<close>

definition grow_mask_zscore_only ::
  "zstat_fn \<Rightarrow> arrays \<Rightarrow> int \<Rightarrow> real \<Rightarrow> nat \<Rightarrow> (bool ndarray \<times> arrays) option" where
  "grow_mask_zscore_only zs st ww zval bw =
     (let selem = ball bw;
          st = st\<lparr>aseg := set_where (\<lambda>v. v = 42) 3 (aseg st)\<rparr>
      in do {
        gm \<leftarrow> set_mask (copy (anat st)) (not_equal (aseg st) 3) 0;
        refined \<leftarrow> refine_aseg (aseg st) 4;
        let newrefmask = candidate_shell refined selem;
        let pixels = argwhere_positive newrefmask;
        refined \<leftarrow> grow_loop (zscore_step zs gm (anat st) ww zval) refined pixels;
        Some (binary_opening (nonzero refined) selem, st)
      })"

section \<open>Auxiliary notions of the proofs\<close>

text \<open>The voxels of an array that a flood has not reached.\<close>

definition unset :: "bool ndarray \<Rightarrow> voxel set" where
  "unset a = {p \<in> set (indices (shape a)). \<not> item a p}"




text \<open>
  A background voxel reaches the outside of the volume, for a neighbourhood given as a
  list of offsets, when a chain of background voxels, each a neighbour of the next, leads
  to it from a voxel that has a neighbour outside of the array.
\<close>

inductive reaches_outside :: "bool ndarray \<Rightarrow> voxel list \<Rightarrow> voxel \<Rightarrow> bool"
  for m :: "bool ndarray" and selem :: "voxel list" where
  border: "in_bounds (shape m) p \<Longrightarrow> \<not> item m p \<Longrightarrow> b \<in> set selem
            \<Longrightarrow> \<not> in_bounds (shape m) (vsub p b) \<Longrightarrow> reaches_outside m selem p"
| step: "in_bounds (shape m) p \<Longrightarrow> \<not> item m p \<Longrightarrow> b \<in> set selem
            \<Longrightarrow> reaches_outside m selem (vsub p b) \<Longrightarrow> reaches_outside m selem p"



text \<open>
  Names for the intermediate values of \<^verbatim>\<open>grow_mask\<close>: the labels after
  \<^verbatim>\<open>aseg[aseg == 42] = 3\<close>, the gray-matter template \<^verbatim>\<open>gm\<close>, and the auxiliary
  segmentation after \<^verbatim>\<open>if ants_segs is None: ...\<close>.
\<close>

definition collapse :: "int ndarray \<Rightarrow> int ndarray" where
  "collapse labels = set_where (\<lambda>v. v = 42) 3 labels"

definition gm_template :: "real ndarray \<Rightarrow> int ndarray \<Rightarrow> real ndarray" where
  "gm_template an labels = NDArray (shape an) (\<lambda>p. if item labels p \<noteq> 3 then 0 else item an p)"

definition ants_or_zeros :: "arrays \<Rightarrow> int ndarray" where
  "ants_or_zeros st = (case ants_segs st of None \<Rightarrow> zeros_like (aseg st) | Some a \<Rightarrow> a)"

text \<open>
  What the loop body does with a candidate voxel, as a value that does not depend on the
  mask being written: it raises (\<open>None\<close>), leaves the mask as it is (\<open>Some None\<close>), or
  writes a value at the voxel (\<open>Some (Some v)\<close>).
\<close>

definition pixel_decision ::
  "zstat_fn \<Rightarrow> real ndarray \<Rightarrow> real ndarray \<Rightarrow> int ndarray \<Rightarrow> int \<Rightarrow> real \<Rightarrow> voxel
     \<Rightarrow> uint8 option option" where
  "pixel_decision zs gm an ants ww zval pixel =
     (case getitem ants pixel of
        None \<Rightarrow> None
      | Some c \<Rightarrow>
          if c = 2 then Some (Some 1)
          else if filter (\<lambda>v. v > 0) (gm_window gm pixel ww) = [] then Some None
          else (case getitem an pixel of
                  None \<Rightarrow> None
                | Some a \<Rightarrow>
                    Some (Some (if zstat_below (zs (filter (\<lambda>v. v > 0) (gm_window gm pixel ww)) a) zval
                                then 1 else 0))))"

definition apply_decision :: "uint8 ndarray \<Rightarrow> voxel \<Rightarrow> uint8 option option \<Rightarrow> uint8 ndarray option" where
  "apply_decision refined pixel d =
     (case d of None \<Rightarrow> None | Some None \<Rightarrow> Some refined | Some (Some v) \<Rightarrow> Some (setitem refined pixel v))"

section \<open>Example volumes\<close>

text \<open>A volume of one voxel that carries the label \<open>-1\<close>.\<close>

definition negative_label_volume :: "int ndarray" where
  "negative_label_volume = NDArray (1, 1, 1) (\<lambda>p. - 1)"

text \<open>Two voxels, the first with a positive label.\<close>

definition two_voxel_labels :: "int ndarray" where
  "two_voxel_labels = NDArray (2, 1, 1) (\<lambda>p. if p = (0, 0, 0) then 17 else 0)"



text \<open>An array whose elements are all zero.\<close>

definition all_zero :: "int ndarray \<Rightarrow> bool" where
  "all_zero a = (\<forall>p \<in> set (indices (shape a)). item a p = 0)"

text \<open>
  A line of six voxels, the first with a label that is not gray matter, an anatomical
  volume of constant intensity over it, and an auxiliary segmentation of zeros.
\<close>

definition line6_labels :: "int ndarray" where
  "line6_labels = NDArray (6, 1, 1) (\<lambda>p. if p = (0, 0, 0) then 17 else 0)"

definition line6_arrays :: arrays where
  "line6_arrays =
     \<lparr>anat = NDArray (6, 1, 1) (\<lambda>p. 100), aseg = line6_labels, ants_segs = None\<rparr>"

definition line6_zero_ants :: "int ndarray" where
  "line6_zero_ants = NDArray (6, 1, 1) (\<lambda>p. 0)"

text \<open>Two voxels without gray matter, for the loop alone.\<close>

definition pair_intensity :: "real ndarray" where
  "pair_intensity = NDArray (2, 1, 1) (\<lambda>p. 0)"

definition pair_ants :: "int ndarray" where
  "pair_ants = NDArray (2, 1, 1) (\<lambda>p. if p = (0, 0, 0) then 2 else 0)"

definition pair_refined :: "uint8 ndarray" where
  "pair_refined = NDArray (2, 1, 1) (\<lambda>p. 0)"

text \<open>One voxel with the label 42 of the right hemisphere.\<close>

definition hemisphere_arrays :: arrays where
  "hemisphere_arrays =
     \<lparr>anat = NDArray (1, 1, 1) (\<lambda>p. 100), aseg = NDArray (1, 1, 1) (\<lambda>p. 42), ants_segs = None\<rparr>"

text \<open>
  The line of six voxels with the gray-matter label 3 on the first voxel, under an
  anatomical volume of constant intensity.
\<close>

definition line6_gm_labels :: "int ndarray" where
  "line6_gm_labels = NDArray (6, 1, 1) (\<lambda>p. if p = (0, 0, 0) then 3 else 0)"

definition line6_gm_arrays :: arrays where
  "line6_gm_arrays =
     \<lparr>anat = NDArray (6, 1, 1) (\<lambda>p. 100), aseg = line6_gm_labels, ants_segs = None\<rparr>"

section \<open>Basic facts\<close>

declare split_paired_All [simp del] split_paired_Ex [simp del]

lemma in_bounds_indices: "p \<in> set (indices s) \<longleftrightarrow> in_bounds s p"
  by (cases s; cases p) (auto simp: image_iff)

lemma origin_in_ball: "(0, 0, 0) \<in> set (ball r)"
  by (auto simp: ball_def Let_def)

lemma mem_ball: "(z, y, x) \<in> set (ball r) \<longleftrightarrow>
   \<bar>x\<bar> \<le> int r \<and> \<bar>y\<bar> \<le> int r \<and> \<bar>z\<bar> \<le> int r \<and> x * x + y * y + z * z \<le> int r * int r"
  by (auto simp: ball_def Let_def)

lemma vsub_origin [simp]: "vsub p (0, 0, 0) = p"
  by (cases p) simp

lemma vadd_origin [simp]: "vadd p (0, 0, 0) = p"
  by (cases p) simp

lemma shape_simps [simp]:
  "shape (copy a) = shape a"
  "shape (set_where c v a) = shape a"
  "shape (setitem a p x) = shape a"
  "shape (astype_uint8 ia) = shape ia"
  "shape (bool_astype_uint8 ba) = shape ba"
  "shape (nonzero ua) = shape ua"
  "shape (logical_not ba) = shape ba"
  "shape (zeros s) = s"
  "shape (binary_dilation ba selem) = shape ba"
  "shape (binary_erosion ba selem) = shape ba"
  "shape (binary_closing ba selem) = shape ba"
  "shape (binary_opening ba selem) = shape ba"
  "shape (masked_dilation structure msk bv ba) = shape ba"
  by (simp_all add: copy_def set_where_def setitem_def astype_uint8_def bool_astype_uint8_def
      nonzero_def logical_not_def zeros_def binary_dilation_def binary_erosion_def
      binary_closing_def binary_opening_def masked_dilation_def)

lemma item_simps [simp]:
  "item (copy a) p = item a p"
  "item (set_where c v a) p = (if c (item a p) then v else item a p)"
  "item (astype_uint8 ia) p = word_of_int (item ia p)"
  "item (bool_astype_uint8 ba) p = (if item ba p then 1 else 0)"
  "item (nonzero ua) p = (item ua p \<noteq> 0)"
  "item (logical_not ba) p = (\<not> item ba p)"
  "item (zeros s) p = False"
  by (simp_all add: copy_def set_where_def astype_uint8_def bool_astype_uint8_def
      nonzero_def logical_not_def zeros_def)


lemma item_binary_dilation:
  "item (binary_dilation img selem) p =
     (\<exists>b \<in> set selem. in_bounds (shape img) (vsub p b) \<and> item img (vsub p b))"
  by (simp add: binary_dilation_def)

lemma item_binary_erosion:
  "item (binary_erosion img selem) p =
     (\<forall>b \<in> set selem. in_bounds (shape img) (vadd p b) \<longrightarrow> item img (vadd p b))"
  by (simp add: binary_erosion_def)

lemma item_masked_dilation:
  "item (masked_dilation structure msk bv a) p =
     (if item msk p
      then \<exists>b \<in> set structure. if in_bounds (shape a) (vsub p b) then item a (vsub p b) else bv
      else item a p)"
  by (simp add: masked_dilation_def)

lemma vadd_vsub [simp]: "vsub (vadd p b) b = p"
  by (cases p; cases b) simp

lemma binary_dilation_extensive:
  assumes "(0, 0, 0) \<in> set selem" "in_bounds (shape img) p" "item img p"
  shows "item (binary_dilation img selem) p"
  unfolding item_binary_dilation
  by (rule bexI[OF _ assms(1)]) (simp add: assms)

lemma binary_closing_extensive:
  assumes "in_bounds (shape img) p" "item img p"
  shows "item (binary_closing img selem) p"
  unfolding binary_closing_def item_binary_erosion
proof (intro ballI impI)
  fix b assume b: "b \<in> set selem"
  show "item (binary_dilation img selem) (vadd p b)"
    unfolding item_binary_dilation by (rule bexI[OF _ b]) (simp add: assms)
qed

lemma masked_dilation_mono:
  assumes "(0, 0, 0) \<in> set structure" "in_bounds (shape a) p" "item a p"
  shows "item (masked_dilation structure msk bv a) p"
proof (cases "item msk p")
  case True
  have "\<exists>b \<in> set structure. if in_bounds (shape a) (vsub p b) then item a (vsub p b) else bv"
    by (rule bexI[OF _ assms(1)]) (simp add: assms)
  then show ?thesis by (simp add: item_masked_dilation True)
next
  case False
  then show ?thesis by (simp add: item_masked_dilation assms)
qed

lemma unset_decreases:
  assumes o: "(0, 0, 0) \<in> set structure"
    and ne: "\<not> array_equal (masked_dilation structure msk bv a) a"
  shows "card (unset (masked_dilation structure msk bv a)) < card (unset a)"
proof (rule psubset_card_mono)
  let ?n = "masked_dilation structure msk bv a"
  show "finite (unset a)" by (simp add: unset_def)
  from ne obtain p where p0: "p \<in> set (indices (shape a))" and p2: "item ?n p \<noteq> item a p"
    unfolding array_equal_def shape_simps by blast
  from p0 have p1: "in_bounds (shape a) p" by (simp add: in_bounds_indices)
  note p = p1 p2
  have "item a p \<Longrightarrow> item ?n p" by (rule masked_dilation_mono[OF o p(1)])
  with p have "p \<in> unset a" "p \<notin> unset ?n"
    unfolding unset_def by (simp_all add: in_bounds_indices) blast+
  moreover have "unset ?n \<subseteq> unset a"
    unfolding unset_def using masked_dilation_mono[OF o, of a _ msk bv]
    by (simp add: in_bounds_indices subset_iff) blast
  ultimately show "unset ?n \<subset> unset a" by blast
qed

lemma iterate_dilation_returns:
  assumes o: "(0, 0, 0) \<in> set structure"
  shows "\<exists>out. iterate_dilation structure msk bv a = Some out \<and> shape out = shape a
      \<and> (\<forall>p. \<not> item msk p \<longrightarrow> item out p = item a p)
      \<and> (\<forall>p. in_bounds (shape a) p \<longrightarrow> item a p \<longrightarrow> item out p)
      \<and> array_equal (masked_dilation structure msk bv out) out"
proof (induction "card (unset a)" arbitrary: a rule: less_induct)
  case less
  let ?n = "masked_dilation structure msk bv a"
  show ?case
  proof (cases "array_equal ?n a")
    case True
    have eq: "iterate_dilation structure msk bv a = Some ?n"
      by (subst iterate_dilation.simps) (simp add: True)
    have same: "\<And>p. in_bounds (shape a) p \<Longrightarrow> item ?n p = item a p"
      using True by (simp add: array_equal_def in_bounds_indices)
    have "\<And>p. in_bounds (shape ?n) p \<Longrightarrow> item (masked_dilation structure msk bv ?n) p = item ?n p"
      using same by (simp add: item_masked_dilation cong: if_cong)
    then have st: "array_equal (masked_dilation structure msk bv ?n) ?n"
      unfolding array_equal_def by (simp add: in_bounds_indices)
    have 1: "\<forall>p. \<not> item msk p \<longrightarrow> item ?n p = item a p"
      by (simp add: item_masked_dilation)
    have 2: "\<forall>p. in_bounds (shape a) p \<longrightarrow> item a p \<longrightarrow> item ?n p"
      using same by simp
    show ?thesis using eq st 1 2 by simp
  next
    case False
    have eq: "iterate_dilation structure msk bv a = iterate_dilation structure msk bv ?n"
      by (subst iterate_dilation.simps) (simp add: False)
    from less[OF unset_decreases[OF o False]] obtain out where
      out: "iterate_dilation structure msk bv ?n = Some out" "shape out = shape ?n"
        "\<forall>p. \<not> item msk p \<longrightarrow> item out p = item ?n p"
        "\<forall>p. in_bounds (shape ?n) p \<longrightarrow> item ?n p \<longrightarrow> item out p"
        "array_equal (masked_dilation structure msk bv out) out"
      by blast
    have 1: "\<forall>p. \<not> item msk p \<longrightarrow> item out p = item a p"
      using out(3) by (simp add: item_masked_dilation)
    have 2: "\<forall>p. in_bounds (shape a) p \<longrightarrow> item a p \<longrightarrow> item out p"
      using out(4) masked_dilation_mono[OF o, of a _ msk bv] by simp
    show ?thesis using eq out(1,2,5) 1 2 by simp
  qed
qed

lemma nonzero_bool_astype_uint8 [simp]: "nonzero (bool_astype_uint8 a) = a"
  by (cases a) (simp add: nonzero_def bool_astype_uint8_def)

lemma item_binarize:
  "item (binarize labels) p = word_of_int (if item labels p > 0 then 1 else item labels p)"
  by (simp add: binarize_def)

lemma shape_binarize [simp]: "shape (binarize labels) = shape labels"
  by (simp add: binarize_def)

subsection \<open>The flood of binary_fill_holes returns\<close>

lemma binary_fill_holes_returns:
  assumes o: "(0, 0, 0) \<in> set se"
  shows "\<exists>flood. iterate_dilation se (logical_not input) True (zeros (shape input)) = Some flood
      \<and> binary_fill_holes input se = Some (logical_not flood)
      \<and> shape flood = shape input
      \<and> (\<forall>p. item input p \<longrightarrow> \<not> item flood p)
      \<and> array_equal (masked_dilation se (logical_not input) True flood) flood"
proof -
  from iterate_dilation_returns[OF o, of "logical_not input" True "zeros (shape input)"]
  obtain flood where f: "iterate_dilation se (logical_not input) True (zeros (shape input)) = Some flood"
    "shape flood = shape (zeros (shape input))"
    "\<forall>p. \<not> item (logical_not input) p \<longrightarrow> item flood p = item (zeros (shape input)) p"
    "array_equal (masked_dilation se (logical_not input) True flood) flood"
    by blast
  have "binary_fill_holes input se = Some (logical_not flood)"
    by (simp add: binary_fill_holes_def f(1))
  then show ?thesis using f by simp
qed

lemma refine_aseg_returns:
  "\<exists>flood. refine_aseg labels r = Some (bool_astype_uint8 (logical_not flood))
      \<and> shape flood = shape labels
      \<and> (\<forall>p. item (binary_closing (nonzero (binarize labels)) (ball r)) p \<longrightarrow> \<not> item flood p)
      \<and> array_equal (masked_dilation (ball r)
            (logical_not (binary_closing (nonzero (binarize labels)) (ball r))) True flood) flood"
proof -
  let ?c = "binary_closing (nonzero (binarize labels)) (ball r)"
  from binary_fill_holes_returns[OF origin_in_ball, of r ?c]
  obtain flood where f: "binary_fill_holes ?c (ball r) = Some (logical_not flood)"
    "shape flood = shape ?c" "\<forall>p. item ?c p \<longrightarrow> \<not> item flood p"
    "array_equal (masked_dilation (ball r) (logical_not ?c) True flood) flood"
    by blast
  have "refine_aseg labels r = Some (bool_astype_uint8 (logical_not flood))"
    by (simp add: refine_aseg_def Let_def f(1))
  moreover have "shape flood = shape labels"
    by (simp add: f(2))
  ultimately show ?thesis using f(3,4) by blast
qed

lemma refine_aseg_covers_nonzero:
  "\<exists>out. refine_aseg labels ball_size = Some out \<and> shape out = shape labels \<and>
     (\<forall>p. in_bounds (shape labels) p \<longrightarrow> item (binarize labels) p \<noteq> 0 \<longrightarrow> item out p = 1)"
proof -
  let ?c = "binary_closing (nonzero (binarize labels)) (ball ball_size)"
  from refine_aseg_returns[of labels ball_size] obtain flood where
    f: "refine_aseg labels ball_size = Some (bool_astype_uint8 (logical_not flood))"
      "shape flood = shape labels" "\<forall>p. item ?c p \<longrightarrow> \<not> item flood p"
    by blast
  have "item (bool_astype_uint8 (logical_not flood)) p = 1"
    if "in_bounds (shape labels) p" "item (binarize labels) p \<noteq> 0" for p
  proof -
    from that have "in_bounds (shape (nonzero (binarize labels))) p"
      "item (nonzero (binarize labels)) p"
      by simp_all
    then have "item ?c p" by (rule binary_closing_extensive)
    with f(3) show ?thesis by simp
  qed
  then show ?thesis using f(1,2) by simp
qed

section \<open>refine_aseg: binarization of the labels\<close>

text \<open>
  C2. The claim: the intermediate mask of \<^verbatim>\<open>refine_aseg\<close> is 1 where the label is
  greater than 0 and 0 elsewhere, negative labels included. On the code a voxel with the
  label \<open>-1\<close> is not greater than 0, keeps its value through \<^verbatim>\<open>bmask[bmask > 0] = 1\<close>,
  and becomes \<open>255\<close> in \<^verbatim>\<open>astype(np.uint8)\<close>: the intermediate mask is neither 0 nor 1
  there, the morphology reads it as foreground, and the voxel is in the mask returned.
\<close>

theorem binarize_negative_label:
  "item negative_label_volume (0, 0, 0) = - 1 \<and>
   item (binarize negative_label_volume) (0, 0, 0) = 255 \<and>
   (\<exists>out. refine_aseg negative_label_volume 4 = Some out \<and> item out (0, 0, 0) = 1)"
proof -
  have 1: "item (binarize negative_label_volume) (0, 0, 0) = 255"
    by (simp add: item_binarize negative_label_volume_def)
  from refine_aseg_covers_nonzero[of negative_label_volume 4] obtain out where
    out: "refine_aseg negative_label_volume 4 = Some out"
      "\<forall>p. in_bounds (shape negative_label_volume) p \<longrightarrow>
         item (binarize negative_label_volume) p \<noteq> 0 \<longrightarrow> item out p = 1"
    by blast
  have "in_bounds (shape negative_label_volume) (0, 0, 0)"
    by (simp add: negative_label_volume_def)
  with out(2) 1 have "item out (0, 0, 0) = 1" by simp
  with out(1) 1 show ?thesis by (simp add: negative_label_volume_def)
qed

text \<open>For the labels that are not negative the intermediate mask is as the claim says.\<close>

lemma binarize_nonnegative:
  "0 \<le> item labels p \<Longrightarrow> item (binarize labels) p = (if 0 < item labels p then 1 else 0)"
  by (simp add: item_binarize)

section \<open>refine_aseg: monotonicity\<close>

text \<open>
  C3. \<^verbatim>\<open>refine_aseg\<close> returns a mask, and every voxel of the volume whose label is
  positive (it is 1 in the binarized labels) is 1 in that mask; more generally every voxel
  that is set in the binarized labels is 1 in the mask, wherever in the volume it lies.
\<close>

theorem refine_aseg_superset:
  "\<exists>out. refine_aseg labels ball_size = Some out \<and> shape out = shape labels \<and>
     (\<forall>p \<in> set (indices (shape labels)).
        (0 < item labels p \<longrightarrow> item (binarize labels) p = 1 \<and> item out p = 1) \<and>
        (item (binarize labels) p \<noteq> 0 \<longrightarrow> item out p = 1))"
proof -
  from refine_aseg_covers_nonzero[of labels ball_size] obtain out where
    out: "refine_aseg labels ball_size = Some out" "shape out = shape labels"
      "\<forall>p. in_bounds (shape labels) p \<longrightarrow> item (binarize labels) p \<noteq> 0 \<longrightarrow> item out p = 1"
    by blast
  have "item (binarize labels) p = 1" if "0 < item labels p" for p
    using that by (simp add: item_binarize)
  with out show ?thesis by (simp add: in_bounds_indices)
qed

theorem refine_aseg_superset_witness:
  "0 < item two_voxel_labels (0, 0, 0) \<and>
   (\<exists>out. refine_aseg two_voxel_labels 4 = Some out \<and> item out (0, 0, 0) = 1)"
proof -
  have "(0, 0, 0) \<in> set (indices (shape two_voxel_labels))"
    by (simp add: two_voxel_labels_def)
  moreover have "0 < item two_voxel_labels (0, 0, 0)"
    by (simp add: two_voxel_labels_def)
  ultimately show ?thesis
    using refine_aseg_superset[of two_voxel_labels 4] by blast
qed




lemma reaches_outside_flooded:
  assumes st: "array_equal (masked_dilation se (logical_not c) True flood) flood"
    and sh: "shape flood = shape m" "shape c = shape m"
    and agree: "\<And>q. in_bounds (shape m) q \<Longrightarrow> item c q = item m q"
    and r: "reaches_outside m se p"
  shows "item flood p"
  using r
proof (induction rule: reaches_outside.induct)
  case (border p b)
  have "item (masked_dilation se (logical_not c) True flood) p = item flood p"
    using st border(1) sh by (simp add: array_equal_def in_bounds_indices)
  moreover have "item (masked_dilation se (logical_not c) True flood) p"
    unfolding item_masked_dilation using border agree sh
    by (auto intro!: bexI[of _ b])
  ultimately show ?case by simp
next
  case (step p b)
  have "item (masked_dilation se (logical_not c) True flood) p = item flood p"
    using st step(1) sh by (simp add: array_equal_def in_bounds_indices)
  moreover have "item (masked_dilation se (logical_not c) True flood) p"
    unfolding item_masked_dilation using step agree sh
    by (auto intro!: bexI[of _ b])
  ultimately show ?case by simp
qed

section \<open>refine_aseg: fixed points\<close>














section \<open>grow_mask: the window of the statistical test\<close>

lemma mem_slice_indices:
  "x \<in> set (slice_indices n a b) \<longleftrightarrow> slice_bound n a \<le> x \<and> x < slice_bound n b"
  by (auto simp: slice_indices_def)

lemma slice_bound_range: "0 \<le> slice_bound n i \<and> slice_bound n i \<le> int n"
  by (simp add: slice_bound_def)

lemma mem_window_indices:
  "(x, y, z) \<in> set (window_indices (nx, ny, nz) (i, j, k) ww) \<longleftrightarrow>
     x \<in> set (slice_indices nx (i - ww) (i + ww)) \<and>
     y \<in> set (slice_indices ny (j - ww) (j + ww)) \<and>
     z \<in> set (slice_indices nz (k - ww) (k + ww))"
  by auto

lemma window_indices_in_bounds:
  assumes "q \<in> set (window_indices s p ww)"
  shows "in_bounds s q"
proof -
  obtain nx ny nz where s: "s = (nx, ny, nz)" by (cases s)
  obtain i j k where p: "p = (i, j, k)" by (cases p)
  obtain x y z where q: "q = (x, y, z)" by (cases q)
  from assms have "x \<in> set (slice_indices nx (i - ww) (i + ww))"
     "y \<in> set (slice_indices ny (j - ww) (j + ww))"
     "z \<in> set (slice_indices nz (k - ww) (k + ww))"
    unfolding s p q mem_window_indices by simp_all
  then show ?thesis
    using slice_bound_range[of nx "i - ww"] slice_bound_range[of nx "i + ww"]
      slice_bound_range[of ny "j - ww"] slice_bound_range[of ny "j + ww"]
      slice_bound_range[of nz "k - ww"] slice_bound_range[of nz "k + ww"]
    unfolding s q mem_slice_indices by simp
qed

lemma mem_slice_interior:
  assumes "0 \<le> ww" "ww \<le> i" "i < int n"
  shows "x \<in> set (slice_indices n (i - ww) (i + ww)) \<longleftrightarrow> i - ww \<le> x \<and> x < i + ww \<and> x < int n"
  using assms by (auto simp: mem_slice_indices slice_bound_def)

text \<open>
  C5, as amended. The window read from the gray-matter template is the slice
  \<^verbatim>\<open>p - ww : p + ww\<close> of Python on each axis. Only indices inside the volume are read,
  whatever the voxel and \<open>ww\<close>. For a voxel of the volume that is at least \<open>ww\<close> away
  from the lower edge on each axis, the indices read are exactly the voxels \<open>q\<close> of the
  volume with \<open>p - ww \<le> q < p + ww\<close> on each axis: \<open>2 * ww\<close> indices per axis at most,
  \<open>p + ww\<close> not among them, and fewer where the volume ends before \<open>p + ww\<close>.
\<close>

theorem window_indices_slice:
  "set (window_indices (nx, ny, nz) (i, j, k) ww) \<subseteq> {q. in_bounds (nx, ny, nz) q} \<and>
   (in_bounds (nx, ny, nz) (i, j, k) \<and> 0 \<le> ww \<and> ww \<le> i \<and> ww \<le> j \<and> ww \<le> k \<longrightarrow>
    set (window_indices (nx, ny, nz) (i, j, k) ww) =
      {(x, y, z). in_bounds (nx, ny, nz) (x, y, z) \<and>
         i - ww \<le> x \<and> x < i + ww \<and> j - ww \<le> y \<and> y < j + ww \<and> k - ww \<le> z \<and> z < k + ww})"
proof (intro conjI impI)
  show "set (window_indices (nx, ny, nz) (i, j, k) ww) \<subseteq> {q. in_bounds (nx, ny, nz) q}"
    using window_indices_in_bounds by blast
next
  assume a: "in_bounds (nx, ny, nz) (i, j, k) \<and> 0 \<le> ww \<and> ww \<le> i \<and> ww \<le> j \<and> ww \<le> k"
  have "(x, y, z) \<in> set (window_indices (nx, ny, nz) (i, j, k) ww) \<longleftrightarrow>
      in_bounds (nx, ny, nz) (x, y, z) \<and>
         i - ww \<le> x \<and> x < i + ww \<and> j - ww \<le> y \<and> y < j + ww \<and> k - ww \<le> z \<and> z < k + ww"
    for x y z
    unfolding mem_window_indices using a
    by (simp add: mem_slice_interior) linarith
  then show "set (window_indices (nx, ny, nz) (i, j, k) ww) =
      {(x, y, z). in_bounds (nx, ny, nz) (x, y, z) \<and>
         i - ww \<le> x \<and> x < i + ww \<and> j - ww \<le> y \<and> y < j + ww \<and> k - ww \<le> z \<and> z < k + ww}"
    by (auto simp del: window_indices.simps)
qed

theorem window_indices_slice_witness:
  "in_bounds (5, 5, 5) (2, 2, 2) \<and>
   set (window_indices (5, 5, 5) (2, 2, 2) 1) =
     {(x, y, z). in_bounds (5, 5, 5) (x, y, z) \<and> 1 \<le> x \<and> x < 3 \<and> 1 \<le> y \<and> y < 3 \<and> 1 \<le> z \<and> z < 3}"
  using window_indices_slice[of 5 5 5 2 2 2 1] by simp

text \<open>
  C5 as stated fails. In the interior of a volume of 5 x 5 x 5 voxels the window of
  half-width 1 around the voxel (2, 2, 2) holds the indices 1 and 2 on each axis, and not
  the index 3: it is not centred on the voxel. At the upper edge the window is cut to the
  volume: around the last voxel of a line of five, with half-width 2, the indices read are
  2, 3 and 4, a truncated window inside the volume.
\<close>

theorem window_not_centred_and_clipped:
  "window_indices (5, 5, 5) (2, 2, 2) 1 =
     [(1, 1, 1), (1, 1, 2), (1, 2, 1), (1, 2, 2), (2, 1, 1), (2, 1, 2), (2, 2, 1), (2, 2, 2)] \<and>
   (3, 2, 2) \<notin> set (window_indices (5, 5, 5) (2, 2, 2) 1) \<and>
   window_indices (5, 1, 1) (4, 0, 0) 2 = [(2, 0, 0), (3, 0, 0), (4, 0, 0)]"
  by (simp add: slice_indices_def slice_bound_def upto.simps)

text \<open>
  Within \<open>ww\<close> of the lower edge of an axis the start of the slice is negative and counts
  from the end of the axis; on an axis of at least \<open>2 * ww\<close> voxels the window is empty.
\<close>

lemma mem_slice_lower_edge:
  assumes "0 \<le> i" "i < ww" "i < int n"
  shows "x \<in> set (slice_indices n (i - ww) (i + ww)) \<longleftrightarrow>
           int n + i - ww \<le> x \<and> 0 \<le> x \<and> x < i + ww \<and> x < int n"
  using assms by (auto simp: mem_slice_indices slice_bound_def)

lemma window_empty_at_lower_edge:
  assumes "0 \<le> i" "i < ww" "2 * ww \<le> int nx"
  shows "window_indices (nx, ny, nz) (i, j, k) ww = []"
proof -
  have "slice_indices nx (i - ww) (i + ww) = []"
    using assms by (simp add: slice_indices_def slice_bound_def)
  then show ?thesis by simp
qed

section \<open>grow_mask: the candidate shell\<close>

lemma item_subtract: "item (subtract a b) p = (if item a p then 1 else 0) - item b p"
  by (simp add: subtract_def)

lemma shape_subtract [simp]: "shape (subtract a b) = shape a"
  by (simp add: subtract_def)

lemma shape_candidate_shell [simp]: "shape (candidate_shell refined se) = shape refined"
  by (simp add: candidate_shell_def)

lemma refine_aseg_binary:
  assumes "refine_aseg labels r = Some refined"
  shows "item refined p = 0 \<or> item refined p = 1"
proof -
  from refine_aseg_returns[of labels r] assms obtain flood where
    "refined = bool_astype_uint8 (logical_not flood)" by auto
  then show ?thesis by simp
qed

lemma refine_aseg_shape:
  assumes "refine_aseg labels r = Some refined"
  shows "shape refined = shape labels"
proof -
  from refine_aseg_returns[of labels r] assms obtain flood where
    "refined = bool_astype_uint8 (logical_not flood)" "shape flood = shape labels" by auto
  then show ?thesis by simp
qed

lemma refined_in_dilation:
  assumes "in_bounds (shape refined) p" "item refined p \<noteq> 0"
  shows "item (binary_dilation (nonzero refined) (ball bw)) p"
  by (rule binary_dilation_extensive[OF origin_in_ball]) (simp_all add: assms)

lemma item_candidate_shell:
  assumes "refine_aseg labels ball_size = Some refined" "in_bounds (shape refined) p"
  shows "item (candidate_shell refined (ball bw)) p =
             (if item (binary_dilation (nonzero refined) (ball bw)) p \<and> item refined p = 0
              then 1 else 0)"
  using refine_aseg_binary[OF assms(1), of p] refined_in_dilation[OF assms(2), of bw]
  by (auto simp: candidate_shell_def item_subtract)

lemma mem_argwhere_positive:
  "p \<in> set (argwhere_positive a) \<longleftrightarrow> in_bounds (shape a) p \<and> item a p \<noteq> 0"
  by (simp add: argwhere_positive_def in_bounds_indices word_greater_zero_iff)

lemma mem_candidates:
  assumes "refine_aseg labels ball_size = Some refined"
  shows "p \<in> set (argwhere_positive (candidate_shell refined (ball bw))) \<longleftrightarrow>
     in_bounds (shape refined) p \<and> item (binary_dilation (nonzero refined) (ball bw)) p
       \<and> item refined p = 0"
proof (cases "in_bounds (shape refined) p")
  case True
  show ?thesis
    unfolding mem_argwhere_positive shape_candidate_shell item_candidate_shell[OF assms True]
    using True by simp
next
  case False
  then show ?thesis by (simp add: mem_argwhere_positive)
qed

text \<open>
  C10. The candidate shell never underflows. For the mask \<open>refined\<close> that
  \<^verbatim>\<open>refine_aseg\<close> returns and every radius \<open>bw\<close>, at every voxel of the volume: a voxel
  of the mask is in its dilation by the ball; the difference \<^verbatim>\<open>dilated - refined\<close>,
  computed in \<^verbatim>\<open>uint8\<close>, is 1 where the voxel is in the dilation and not in the mask and
  0 elsewhere; and no voxel of the mask is among the candidates.
\<close>

theorem candidate_shell_no_underflow:
  assumes "refine_aseg labels ball_size = Some refined"
  shows "\<forall>p \<in> set (indices (shape refined)).
           (item refined p \<noteq> 0 \<longrightarrow> item (binary_dilation (nonzero refined) (ball bw)) p) \<and>
           item (candidate_shell refined (ball bw)) p =
             (if item (binary_dilation (nonzero refined) (ball bw)) p \<and> item refined p = 0
              then 1 else 0) \<and>
           (item refined p \<noteq> 0 \<longrightarrow> p \<notin> set (argwhere_positive (candidate_shell refined (ball bw))))"
proof
  fix p assume "p \<in> set (indices (shape refined))"
  then have inb: "in_bounds (shape refined) p" by (simp only: in_bounds_indices)
  show "(item refined p \<noteq> 0 \<longrightarrow> item (binary_dilation (nonzero refined) (ball bw)) p) \<and>
           item (candidate_shell refined (ball bw)) p =
             (if item (binary_dilation (nonzero refined) (ball bw)) p \<and> item refined p = 0
              then 1 else 0) \<and>
           (item refined p \<noteq> 0 \<longrightarrow> p \<notin> set (argwhere_positive (candidate_shell refined (ball bw))))"
    using refined_in_dilation[OF inb, of bw] item_candidate_shell[OF assms inb, of bw]
      mem_candidates[OF assms, of p bw]
    by blast
qed

lemma two_voxel_refined:
  "\<exists>refined. refine_aseg two_voxel_labels 4 = Some refined \<and> shape refined = (2, 1, 1)
      \<and> item refined (0, 0, 0) = 1"
  using refine_aseg_covers_nonzero[of two_voxel_labels 4]
  by (auto simp: two_voxel_labels_def item_binarize)

theorem candidate_shell_no_underflow_witness:
  "\<exists>refined. refine_aseg two_voxel_labels 4 = Some refined \<and>
     item refined (0, 0, 0) = 1 \<and>
     item (binary_dilation (nonzero refined) (ball 4)) (0, 0, 0) \<and>
     item (candidate_shell refined (ball 4)) (0, 0, 0) = 0 \<and>
     (0, 0, 0) \<notin> set (argwhere_positive (candidate_shell refined (ball 4)))"
proof -
  from two_voxel_refined obtain refined where r: "refine_aseg two_voxel_labels 4 = Some refined"
    "shape refined = (2, 1, 1)" "item refined (0, 0, 0) = 1" by blast
  have "(0, 0, 0) \<in> set (indices (shape refined))" by (simp add: r(2))
  with candidate_shell_no_underflow[OF r(1), of 4] r show ?thesis
    by (intro exI[of _ refined]) force
qed

section \<open>grow_mask: the steps of the function\<close>

lemma binarize_collapse: "binarize (set_where (\<lambda>v. v = 42) 3 labels) = binarize labels"
  by (auto simp: binarize_def astype_uint8_def set_where_def copy_def)

lemma refine_aseg_collapse: "refine_aseg (set_where (\<lambda>v. v = 42) 3 labels) r = refine_aseg labels r"
  by (simp add: refine_aseg_def binarize_collapse)

lemma set_mask_gm:
  "set_mask (copy an) (not_equal labels 3) 0 =
     (if shape labels = shape an then Some (gm_template an labels) else None)"
  by (simp add: set_mask_def not_equal_def gm_template_def copy_def)

lemma grow_mask_eq:
  "grow_mask zs st ww zval bw =
     (if shape (aseg st) \<noteq> shape (anat st) then None
      else case refine_aseg (aseg st) 4 of
        None \<Rightarrow> None
      | Some refined \<Rightarrow>
          (case grow_loop (grow_step zs (gm_template (anat st) (collapse (aseg st))) (anat st)
                   (ants_or_zeros st) ww zval)
                  refined (argwhere_positive (candidate_shell refined (ball bw))) of
             None \<Rightarrow> None
           | Some r \<Rightarrow> Some (binary_opening (nonzero r) (ball bw), st\<lparr>aseg := collapse (aseg st)\<rparr>)))"
  by (simp add: grow_mask_def Let_def set_mask_gm refine_aseg_collapse collapse_def
      ants_or_zeros_def split: option.splits)

lemma grow_mask_zscore_only_eq:
  "grow_mask_zscore_only zs st ww zval bw =
     (if shape (aseg st) \<noteq> shape (anat st) then None
      else case refine_aseg (aseg st) 4 of
        None \<Rightarrow> None
      | Some refined \<Rightarrow>
          (case grow_loop (zscore_step zs (gm_template (anat st) (collapse (aseg st))) (anat st) ww zval)
                  refined (argwhere_positive (candidate_shell refined (ball bw))) of
             None \<Rightarrow> None
           | Some r \<Rightarrow> Some (binary_opening (nonzero r) (ball bw), st\<lparr>aseg := collapse (aseg st)\<rparr>)))"
  by (simp add: grow_mask_zscore_only_def Let_def set_mask_gm refine_aseg_collapse collapse_def
      split: option.splits)

lemma grow_step_decision:
  "grow_step zs gm an ants ww zval refined pixel =
     apply_decision refined pixel (pixel_decision zs gm an ants ww zval pixel)"
  by (simp add: grow_step_def zscore_step_def pixel_decision_def apply_decision_def Let_def
      split: option.splits)

lemma grow_loop_cong:
  assumes "\<And>r p. p \<in> set pixels \<Longrightarrow> f r p = g r p"
  shows "grow_loop f refined pixels = grow_loop g refined pixels"
  using assms
proof (induction pixels arbitrary: refined)
  case Nil
  show ?case by simp
next
  case (Cons p ps)
  have "f refined p = g refined p" by (rule Cons.prems) simp
  moreover have "grow_loop f r ps = grow_loop g r ps" for r
    by (rule Cons.IH) (simp add: Cons.prems)
  ultimately show ?case by simp
qed

lemma grow_loop_decision:
  assumes body: "\<And>r p. body r p = apply_decision r p (d p)"
  shows "grow_loop body refined pixels =
     (if \<exists>p \<in> set pixels. d p = None then None
      else Some (NDArray (shape refined)
        (\<lambda>q. if q \<in> set pixels then (case d q of Some (Some v) \<Rightarrow> v | _ \<Rightarrow> item refined q)
             else item refined q)))"
proof (induction pixels arbitrary: refined)
  case Nil
  show ?case by simp
next
  case (Cons p ps)
  show ?case
  proof (cases "d p")
    case None
    then show ?thesis by (simp add: body apply_decision_def)
  next
    case (Some w)
    show ?thesis
    proof (cases w)
      case None
      with Some have dp: "d p = Some None" by simp
      have "grow_loop body refined (p # ps) = grow_loop body refined ps"
        by (simp add: body dp apply_decision_def)
      also have "\<dots> = (if \<exists>p \<in> set ps. d p = None then None
        else Some (NDArray (shape refined)
          (\<lambda>q. if q \<in> set ps then (case d q of Some (Some v) \<Rightarrow> v | _ \<Rightarrow> item refined q)
             else item refined q)))"
        by (rule Cons.IH)
      also have "\<dots> = (if \<exists>q \<in> set (p # ps). d q = None then None
        else Some (NDArray (shape refined)
          (\<lambda>q. if q \<in> set (p # ps) then (case d q of Some (Some v) \<Rightarrow> v | _ \<Rightarrow> item refined q)
             else item refined q)))"
        using dp by (auto intro!: ext)
      finally show ?thesis .
    next
      case (Some v)
      with \<open>d p = Some w\<close> have dp: "d p = Some (Some v)" by simp
      have "grow_loop body refined (p # ps) = grow_loop body (setitem refined p v) ps"
        by (simp add: body dp apply_decision_def)
      also have "\<dots> = (if \<exists>p \<in> set ps. d p = None then None
        else Some (NDArray (shape (setitem refined p v))
          (\<lambda>q. if q \<in> set ps then (case d q of Some (Some v) \<Rightarrow> v | _ \<Rightarrow> item (setitem refined p v) q)
             else item (setitem refined p v) q)))"
        by (rule Cons.IH)
      also have "\<dots> = (if \<exists>q \<in> set (p # ps). d q = None then None
        else Some (NDArray (shape refined)
          (\<lambda>q. if q \<in> set (p # ps) then (case d q of Some (Some v) \<Rightarrow> v | _ \<Rightarrow> item refined q)
             else item refined q)))"
        using dp by (auto intro!: ext simp: setitem_def split: option.splits)
      finally show ?thesis .
    qed
  qed
qed

section \<open>grow_mask: the order of the candidate voxels\<close>

text \<open>
  C9. The loop body of \<^verbatim>\<open>grow_mask\<close> is a function of the gray-matter template, the
  anatomical volume, the auxiliary segmentation and the voxel: what it does to the mask
  being written is fixed by a decision that does not read that mask. Hence the loop run
  over any permutation of the candidate voxels ends with the same mask (or raises in both
  orders).
\<close>

theorem grow_loop_order_independent:
  assumes "mset pixels' = mset pixels"
  shows "(\<forall>refined pixel. grow_step zs gm an ants ww zval refined pixel =
            apply_decision refined pixel (pixel_decision zs gm an ants ww zval pixel)) \<and>
         grow_loop (grow_step zs gm an ants ww zval) refined pixels' =
         grow_loop (grow_step zs gm an ants ww zval) refined pixels"
proof -
  from assms have "set pixels' = set pixels" by (rule mset_eq_setD)
  then show ?thesis
    by (simp add: grow_loop_decision[where d="pixel_decision zs gm an ants ww zval", OF grow_step_decision]
        grow_step_decision)
qed


theorem grow_loop_order_independent_witness:
  "mset [(1, 0, 0), (0, 0, 0)] = mset [(0, 0, 0), (1 :: int, 0 :: int, 0 :: int)] \<and>
   grow_loop (grow_step exact_zstat pair_intensity pair_intensity pair_ants 7 2) pair_refined
     [(1, 0, 0), (0, 0, 0)] =
   grow_loop (grow_step exact_zstat pair_intensity pair_intensity pair_ants 7 2) pair_refined
     [(0, 0, 0), (1, 0, 0)]"
proof -
  have m: "mset [(1, 0, 0), (0, 0, 0)] = mset [(0, 0, 0), (1 :: int, 0 :: int, 0 :: int)]"
    by simp
  from grow_loop_order_independent[OF m, of exact_zstat pair_intensity pair_intensity pair_ants 7 2 pair_refined]
  show ?thesis using m by blast
qed

section \<open>grow_mask: an auxiliary segmentation of zeros\<close>

lemma getitem_in_bounds: "in_bounds (shape a) p \<Longrightarrow> getitem a p = Some (item a p)"
  by (simp add: getitem_def)

lemma grow_step_no_aux:
  assumes "in_bounds (shape ants) p" "item ants p \<noteq> 2"
  shows "grow_step zs gm an ants ww zval r p = zscore_step zs gm an ww zval r p"
  using assms by (simp add: grow_step_def getitem_in_bounds)

text \<open>
  C6. When \<^verbatim>\<open>ants_segs\<close> is omitted, or is an array of zeros of the shape of
  \<^verbatim>\<open>aseg\<close>, the auxiliary segmentation is never 2 at a voxel of the volume, the loop
  body at such a voxel is the statistical test alone, and \<^verbatim>\<open>grow_mask\<close> returns what
  the variant without the branch on the auxiliary segmentation returns.
\<close>

theorem grow_mask_all_zero_ants:
  assumes "ants_segs st = None \<or>
           (\<exists>a. ants_segs st = Some a \<and> shape a = shape (aseg st) \<and> all_zero a)"
  shows "(\<forall>p \<in> set (indices (shape (aseg st))). item (ants_or_zeros st) p \<noteq> 2 \<and>
            (\<forall>gm an r. grow_step zs gm an (ants_or_zeros st) ww zval r p = zscore_step zs gm an ww zval r p)) \<and>
         grow_mask zs st ww zval bw = grow_mask_zscore_only zs st ww zval bw"
proof -
  have sh: "shape (ants_or_zeros st) = shape (aseg st)"
    using assms by (auto simp: ants_or_zeros_def zeros_like_def)
  have z: "item (ants_or_zeros st) p = 0" if "in_bounds (shape (aseg st)) p" for p
    using assms that by (auto simp: ants_or_zeros_def zeros_like_def all_zero_def in_bounds_indices)
  have step: "grow_step zs gm an (ants_or_zeros st) ww zval r p = zscore_step zs gm an ww zval r p"
    if "in_bounds (shape (aseg st)) p" for p gm an r
    by (rule grow_step_no_aux) (simp_all add: sh that z)
  have loop: "grow_loop (grow_step zs gm an (ants_or_zeros st) ww zval) refined
                  (argwhere_positive (candidate_shell refined (ball bw))) =
              grow_loop (zscore_step zs gm an ww zval) refined
                  (argwhere_positive (candidate_shell refined (ball bw)))"
    if "refine_aseg (aseg st) 4 = Some refined" for refined gm an
  proof (rule grow_loop_cong)
    fix r p assume "p \<in> set (argwhere_positive (candidate_shell refined (ball bw)))"
    then have "in_bounds (shape refined) p" by (simp add: mem_argwhere_positive)
    then have "in_bounds (shape (aseg st)) p" by (simp add: refine_aseg_shape[OF that])
    then show "grow_step zs gm an (ants_or_zeros st) ww zval r p = zscore_step zs gm an ww zval r p"
      by (rule step)
  qed
  have "grow_mask zs st ww zval bw = grow_mask_zscore_only zs st ww zval bw"
    unfolding grow_mask_eq grow_mask_zscore_only_eq
    by (simp add: loop split: option.splits)
  with z step show ?thesis by (simp add: in_bounds_indices)
qed


theorem grow_mask_all_zero_ants_witness:
  "ants_segs (line6_arrays\<lparr>ants_segs := Some line6_zero_ants\<rparr>) = Some line6_zero_ants \<and>
   shape line6_zero_ants = shape (aseg (line6_arrays\<lparr>ants_segs := Some line6_zero_ants\<rparr>)) \<and>
   all_zero line6_zero_ants \<and>
   grow_mask exact_zstat (line6_arrays\<lparr>ants_segs := Some line6_zero_ants\<rparr>) 7 2 4 =
     grow_mask_zscore_only exact_zstat (line6_arrays\<lparr>ants_segs := Some line6_zero_ants\<rparr>) 7 2 4"
proof -
  have 1: "shape line6_zero_ants = shape (aseg (line6_arrays\<lparr>ants_segs := Some line6_zero_ants\<rparr>))"
    by (simp add: line6_zero_ants_def line6_arrays_def line6_labels_def)
  have 2: "all_zero line6_zero_ants"
    by (simp add: all_zero_def line6_zero_ants_def)
  have "ants_segs (line6_arrays\<lparr>ants_segs := Some line6_zero_ants\<rparr>) = None \<or>
     (\<exists>a. ants_segs (line6_arrays\<lparr>ants_segs := Some line6_zero_ants\<rparr>) = Some a \<and>
        shape a = shape (aseg (line6_arrays\<lparr>ants_segs := Some line6_zero_ants\<rparr>)) \<and> all_zero a)"
    using 1 2 by simp
  from grow_mask_all_zero_ants[OF this, of exact_zstat 7 2 4] 1 2 show ?thesis by simp
qed

section \<open>grow_mask: the radius 0\<close>

lemma ball_0: "ball 0 = [(0, 0, 0)]"
  by (simp add: ball_def upto.simps)

lemma dilation_ball_0:
  "item (binary_dilation img (ball 0)) p = (in_bounds (shape img) p \<and> item img p)"
  by (simp add: item_binary_dilation ball_0)

lemma erosion_ball_0:
  "item (binary_erosion img (ball 0)) p = (in_bounds (shape img) p \<longrightarrow> item img p)"
  by (simp add: item_binary_erosion ball_0)

lemma opening_ball_0:
  "item (binary_opening img (ball 0)) p = (in_bounds (shape img) p \<and> item img p)"
  by (auto simp: binary_opening_def dilation_ball_0 erosion_ball_0)

lemma no_candidates_ball_0:
  assumes "refine_aseg labels r = Some refined"
  shows "argwhere_positive (candidate_shell refined (ball 0)) = []"
proof -
  have "p \<notin> set (argwhere_positive (candidate_shell refined (ball 0)))" for p
    unfolding mem_candidates[OF assms] by (simp add: dilation_ball_0)
  then show ?thesis by (meson last_in_set)
qed

text \<open>
  C8. For \<open>bw = 0\<close> and an anatomical volume of the shape of the labels: the ball is the
  single voxel at its centre; at the voxels of the volume the dilation and the opening by
  it return the mask they are given; there is no candidate voxel; and \<^verbatim>\<open>grow_mask\<close>
  returns a mask that is set exactly where the mask of \<^verbatim>\<open>refine_aseg\<close> on the same
  labels is 1.
\<close>

theorem grow_mask_zero_radius:
  assumes "shape (anat st) = shape (aseg st)"
  shows "ball 0 = [(0, 0, 0)] \<and>
    (\<exists>refined mask. refine_aseg (aseg st) 4 = Some refined \<and>
       (\<forall>p \<in> set (indices (shape refined)).
          item (binary_dilation (nonzero refined) (ball 0)) p = (item refined p \<noteq> 0) \<and>
          item (binary_opening (nonzero refined) (ball 0)) p = (item refined p \<noteq> 0)) \<and>
       argwhere_positive (candidate_shell refined (ball 0)) = [] \<and>
       grow_mask zs st ww zval 0 = Some (mask, st\<lparr>aseg := collapse (aseg st)\<rparr>) \<and>
       shape mask = shape refined \<and>
       (\<forall>p \<in> set (indices (shape refined)). item mask p = (item refined p = 1)))"
proof -
  from refine_aseg_returns[of "aseg st" 4] obtain refined where
    r: "refine_aseg (aseg st) 4 = Some refined" by blast
  let ?mask = "binary_opening (nonzero refined) (ball 0)"
  have nc: "argwhere_positive (candidate_shell refined (ball 0)) = []"
    by (rule no_candidates_ball_0[OF r])
  have gm: "grow_mask zs st ww zval 0 = Some (?mask, st\<lparr>aseg := collapse (aseg st)\<rparr>)"
    unfolding grow_mask_eq by (simp add: assms r nc)
  have 1: "item (binary_dilation (nonzero refined) (ball 0)) p = (item refined p \<noteq> 0) \<and>
          item ?mask p = (item refined p \<noteq> 0)"
    if "p \<in> set (indices (shape refined))" for p
    using that by (simp add: in_bounds_indices dilation_ball_0 opening_ball_0)
  have 2: "item ?mask p = (item refined p = 1)" if "p \<in> set (indices (shape refined))" for p
    using that refine_aseg_binary[OF r, of p]
    by (auto simp: in_bounds_indices opening_ball_0)
  show ?thesis
    using r nc gm 1 2 ball_0 by (intro conjI exI[of _ refined] exI[of _ ?mask]) simp_all
qed


theorem grow_mask_zero_radius_witness:
  "shape (anat line6_arrays) = shape (aseg line6_arrays) \<and>
   (\<exists>refined mask. refine_aseg (aseg line6_arrays) 4 = Some refined \<and>
      grow_mask exact_zstat line6_arrays 7 2 0 = Some (mask, line6_arrays\<lparr>aseg := collapse (aseg line6_arrays)\<rparr>) \<and>
      item mask (0, 0, 0) = (item refined (0, 0, 0) = 1))"
proof -
  have s: "shape (anat line6_arrays) = shape (aseg line6_arrays)"
    by (simp add: line6_arrays_def line6_labels_def)
  from grow_mask_zero_radius[OF s, of exact_zstat 7 2] obtain refined mask where
    r: "refine_aseg (aseg line6_arrays) 4 = Some refined"
      "grow_mask exact_zstat line6_arrays 7 2 0 = Some (mask, line6_arrays\<lparr>aseg := collapse (aseg line6_arrays)\<rparr>)"
      "shape mask = shape refined"
      "\<forall>p \<in> set (indices (shape refined)). item mask p = (item refined p = 1)"
    by blast
  have "shape refined = (6, 1, 1)"
    using refine_aseg_shape[OF r(1)] by (simp add: line6_arrays_def line6_labels_def)
  then have "(0, 0, 0) \<in> set (indices (shape refined))" by simp
  with r(4) have "item mask (0, 0, 0) = (item refined (0, 0, 0) = 1)" by blast
  with s r(1,2) show ?thesis by blast
qed

section \<open>grow_mask: a line of six voxels\<close>

lemma refine_aseg_background:
  assumes r: "refine_aseg labels r = Some refined"
    and ro: "reaches_outside (binary_closing (nonzero (binarize labels)) (ball r)) (ball r) p"
  shows "item refined p = 0"
proof -
  let ?c = "binary_closing (nonzero (binarize labels)) (ball r)"
  from refine_aseg_returns[of labels r] r obtain flood where
    f: "refined = bool_astype_uint8 (logical_not flood)" "shape flood = shape labels"
      "array_equal (masked_dilation (ball r) (logical_not ?c) True flood) flood"
    by auto
  have "item flood p"
    by (rule reaches_outside_flooded[OF f(3) _ _ _ ro]) (simp_all add: f(2))
  then show ?thesis by (simp add: f(1))
qed

text \<open>
  The line of six voxels with a label on the first: \<^verbatim>\<open>refine_aseg\<close> keeps the first
  voxel and leaves the second out, the second voxel is a candidate for the radius 4, and
  the opening by the ball of radius 4 removes every voxel of the refined mask.
\<close>

lemma line6_closing_1:
  "\<not> item (binary_closing (nonzero (binarize line6_labels)) (ball 4)) (1, 0, 0)"
proof
  assume c: "item (binary_closing (nonzero (binarize line6_labels)) (ball 4)) (1, 0, 0)"
  have b: "(4, 0, 0) \<in> set (ball 4)" by (simp add: mem_ball)
  from c have "item (binary_dilation (nonzero (binarize line6_labels)) (ball 4)) (vadd (1, 0, 0) (4, 0, 0))"
    unfolding binary_closing_def item_binary_erosion
    using b by (auto simp: line6_labels_def)
  then obtain b' where b': "b' \<in> set (ball 4)"
    "item (nonzero (binarize line6_labels)) (vsub (5, 0, 0) b')"
    unfolding item_binary_dilation by auto
  obtain x y z where xyz: "b' = (x, y, z)" by (cases b')
  from b'(2) have "x = 5"
    by (auto simp: xyz item_binarize line6_labels_def split: if_splits)
  with b'(1) show False by (simp add: xyz mem_ball)
qed

lemma line6_reaches_outside:
  "reaches_outside (binary_closing (nonzero (binarize line6_labels)) (ball 4)) (ball 4) (1, 0, 0)"
proof (rule reaches_outside.border)
  show "(0, 1, 0) \<in> set (ball 4)" by (simp add: mem_ball)
  show "\<not> item (binary_closing (nonzero (binarize line6_labels)) (ball 4)) (1, 0, 0)"
    by (rule line6_closing_1)
qed (simp_all add: line6_labels_def)

lemma line6_refined:
  assumes "refine_aseg line6_labels 4 = Some refined"
  shows "shape refined = (6, 1, 1)" "item refined (0, 0, 0) = 1" "item refined (1, 0, 0) = 0"
proof -
  show "shape refined = (6, 1, 1)"
    using refine_aseg_shape[OF assms] by (simp add: line6_labels_def)
  from refine_aseg_covers_nonzero[of line6_labels 4] assms
  show "item refined (0, 0, 0) = 1"
    by (auto simp: line6_labels_def item_binarize)
  show "item refined (1, 0, 0) = 0"
    by (rule refine_aseg_background[OF assms line6_reaches_outside])
qed

lemma line6_candidate:
  assumes "refine_aseg line6_labels 4 = Some refined"
  shows "(1, 0, 0) \<in> set (argwhere_positive (candidate_shell refined (ball 4)))"
proof -
  have "(1, 0, 0) \<in> set (ball 4)" by (simp add: mem_ball)
  then have "item (binary_dilation (nonzero refined) (ball 4)) (1, 0, 0)"
    unfolding item_binary_dilation
    by (rule bexI[rotated]) (simp add: line6_refined[OF assms])
  then show ?thesis
    unfolding mem_candidates[OF assms] by (simp add: line6_refined[OF assms])
qed

lemma line6_opening:
  assumes "refine_aseg line6_labels 4 = Some refined"
  shows "\<not> item (binary_opening (nonzero refined) (ball 4)) p"
proof -
  have er: "\<not> item (binary_erosion (nonzero refined) (ball 4)) q"
    if q: "in_bounds (shape refined) q" for q
  proof -
    obtain x y z where xyz: "q = (x, y, z)" by (cases q)
    from q have rng: "0 \<le> x" "x < 6" "y = 0" "z = 0"
      by (simp_all add: xyz line6_refined[OF assms])
    from rng have "x = 0 \<or> x = 1 \<or> x = 2 \<or> x = 3 \<or> x = 4 \<or> x = 5" by arith
    then have b: "(1 - x, 0, 0) \<in> set (ball 4)"
      by (auto simp: mem_ball)
    have "vadd q (1 - x, 0, 0) = (1, 0, 0)" by (simp add: xyz rng)
    then have "in_bounds (shape (nonzero refined)) (vadd q (1 - x, 0, 0)) \<and>
        \<not> item (nonzero refined) (vadd q (1 - x, 0, 0))"
      by (simp add: line6_refined[OF assms])
    with b show ?thesis unfolding item_binary_erosion by blast
  qed
  show ?thesis
    unfolding binary_opening_def item_binary_dilation using er by auto
qed

section \<open>grow_mask: what it returns and what it writes\<close>

lemma shape_ants_or_zeros:
  assumes "ants_segs st = None \<or> (\<exists>a. ants_segs st = Some a \<and> shape a = shape (aseg st))"
  shows "shape (ants_or_zeros st) = shape (aseg st)"
  using assms by (auto simp: ants_or_zeros_def zeros_like_def)

lemma pixel_decision_in_bounds:
  assumes "in_bounds (shape ants) p" "in_bounds (shape an) p"
  shows "pixel_decision zs gm an ants ww zval p \<noteq> None"
  using assms by (simp add: pixel_decision_def getitem_in_bounds)

lemma grow_loop_returns:
  assumes "\<And>p. p \<in> set pixels \<Longrightarrow> in_bounds (shape ants) p \<and> in_bounds (shape an) p"
  shows "grow_loop (grow_step zs gm an ants ww zval) refined pixels =
     Some (NDArray (shape refined)
        (\<lambda>q. if q \<in> set pixels
             then (case pixel_decision zs gm an ants ww zval q of Some (Some v) \<Rightarrow> v | _ \<Rightarrow> item refined q)
             else item refined q))"
proof -
  have "\<not> (\<exists>p \<in> set pixels. pixel_decision zs gm an ants ww zval p = None)"
    using assms pixel_decision_in_bounds by blast
  then show ?thesis
    by (simp add: grow_loop_decision[where d="pixel_decision zs gm an ants ww zval", OF grow_step_decision])
qed

lemma grow_mask_returns:
  assumes sh: "shape (anat st) = shape (aseg st)"
    and an: "ants_segs st = None \<or> (\<exists>a. ants_segs st = Some a \<and> shape a = shape (aseg st))"
    and r: "refine_aseg (aseg st) 4 = Some refined"
  shows "grow_mask zs st ww zval bw =
     Some (binary_opening (nonzero (NDArray (shape refined)
        (\<lambda>q. if q \<in> set (argwhere_positive (candidate_shell refined (ball bw)))
             then (case pixel_decision zs (gm_template (anat st) (collapse (aseg st))) (anat st)
                        (ants_or_zeros st) ww zval q of
                     Some (Some v) \<Rightarrow> v | _ \<Rightarrow> item refined q)
             else item refined q))) (ball bw),
          st\<lparr>aseg := collapse (aseg st)\<rparr>)"
proof -
  have "in_bounds (shape (ants_or_zeros st)) p \<and> in_bounds (shape (anat st)) p"
    if "p \<in> set (argwhere_positive (candidate_shell refined (ball bw)))" for p
    using that by (simp add: mem_argwhere_positive shape_ants_or_zeros[OF an] sh refine_aseg_shape[OF r])
  from grow_loop_returns[of _ "ants_or_zeros st" "anat st", OF this]
  show ?thesis unfolding grow_mask_eq by (simp add: sh r)
qed

lemma grow_mask_frame:
  assumes "grow_mask zs st ww zval bw = Some (out, st')"
  shows "anat st' = anat st \<and> ants_segs st' = ants_segs st \<and> aseg st' = collapse (aseg st)"
  using assms unfolding grow_mask_eq by (auto split: if_splits option.splits)

text \<open>
  C1. The claim: after \<^verbatim>\<open>grow_mask\<close> returns, the arrays \<^verbatim>\<open>anat\<close>, \<^verbatim>\<open>aseg\<close>
  and \<^verbatim>\<open>ants_segs\<close> of the caller are unchanged. On the code \<^verbatim>\<open>anat\<close> and
  \<^verbatim>\<open>ants_segs\<close> are unchanged, but \<^verbatim>\<open>aseg[aseg == 42] = 3\<close> writes into the array
  of the caller: for a volume of one voxel with the label 42 the function returns, and the
  caller's \<^verbatim>\<open>aseg\<close> holds 3 where it held 42.
\<close>

theorem grow_mask_writes_aseg:
  "\<exists>mask st'. grow_mask exact_zstat hemisphere_arrays 7 2 4 = Some (mask, st') \<and>
     item (aseg hemisphere_arrays) (0, 0, 0) = 42 \<and> item (aseg st') (0, 0, 0) = 3 \<and>
     aseg st' \<noteq> aseg hemisphere_arrays \<and>
     anat st' = anat hemisphere_arrays \<and> ants_segs st' = ants_segs hemisphere_arrays"
proof -
  from refine_aseg_returns[of "aseg hemisphere_arrays" 4] obtain refined where
    r: "refine_aseg (aseg hemisphere_arrays) 4 = Some refined" by blast
  have sh: "shape (anat hemisphere_arrays) = shape (aseg hemisphere_arrays)"
    by (simp add: hemisphere_arrays_def)
  have an: "ants_segs hemisphere_arrays = None \<or>
      (\<exists>a. ants_segs hemisphere_arrays = Some a \<and> shape a = shape (aseg hemisphere_arrays))"
    by (simp add: hemisphere_arrays_def)
  from grow_mask_returns[OF sh an r, of exact_zstat 7 2 4] obtain mask where
    g: "grow_mask exact_zstat hemisphere_arrays 7 2 4 =
          Some (mask, hemisphere_arrays\<lparr>aseg := collapse (aseg hemisphere_arrays)\<rparr>)"
    by blast
  have 1: "item (aseg hemisphere_arrays) (0, 0, 0) = 42"
    by (simp add: hemisphere_arrays_def)
  have 2: "item (collapse (aseg hemisphere_arrays)) (0, 0, 0) = 3"
    by (simp add: hemisphere_arrays_def collapse_def)
  from 1 2 have 3: "collapse (aseg hemisphere_arrays) \<noteq> aseg hemisphere_arrays"
    by auto
  show ?thesis using g 1 2 3 by simp
qed

section \<open>grow_mask: a large threshold\<close>

lemma pixel_decision_no_gm:
  assumes "in_bounds (shape ants) p" "item ants p \<noteq> 2"
    and "filter (\<lambda>v. v > 0) (gm_window gm p ww) = []"
  shows "pixel_decision zs gm an ants ww zval p = Some None"
  using assms by (simp add: pixel_decision_def getitem_in_bounds)

text \<open>The value at a candidate voxel of the mask that the loop returns.\<close>

lemma item_grown:
  assumes "p \<in> set cands" "in_bounds (shape ants) p" "in_bounds (shape an) p"
  shows "item (NDArray s
            (\<lambda>q. if q \<in> set cands
                 then (case pixel_decision zs gm an ants ww zval q of
                         Some (Some v) \<Rightarrow> v | _ \<Rightarrow> item refined q)
                 else item refined q)) p =
         (if item ants p = 2 then 1
          else if filter (\<lambda>v. v > 0) (gm_window gm p ww) = [] then item refined p
          else if zstat_below (zs (filter (\<lambda>v. v > 0) (gm_window gm p ww)) (item an p)) zval
               then 1 else 0)"
  using assms by (simp add: pixel_decision_def getitem_in_bounds)

text \<open>Finitely many z-scores lie below every threshold that is large enough.\<close>

lemma threshold_exists:
  fixes g :: "voxel \<Rightarrow> real option"
  shows "\<exists>Z. \<forall>zval > Z. \<forall>q \<in> set qs. \<forall>z. g q = Some z \<longrightarrow> z < zval"
proof (induction qs)
  case Nil
  show ?case by simp
next
  case (Cons q qs)
  then obtain Z where Z: "\<forall>zval > Z. \<forall>q \<in> set qs. \<forall>z. g q = Some z \<longrightarrow> z < zval"
    by blast
  let ?Z = "max Z (case g q of Some z \<Rightarrow> z | None \<Rightarrow> Z)"
  have "\<forall>zval > ?Z. \<forall>q' \<in> set (q # qs). \<forall>z. g q' = Some z \<longrightarrow> z < zval"
  proof (intro allI impI ballI)
    fix zval q' z
    assume zv: "?Z < zval" and q': "q' \<in> set (q # qs)" and gz: "g q' = Some z"
    show "z < zval"
    proof (cases "q' = q")
      case True
      with gz zv show ?thesis by simp
    next
      case False
      with q' have "q' \<in> set qs" by simp
      moreover from zv have "Z < zval" by simp
      ultimately show ?thesis using Z gz by blast
    qed
  qed
  then show ?case by blast
qed

text \<open>
  C7, as amended. Let the anatomical volume have the shape of the labels (and the auxiliary
  segmentation too, when it is given), and let \<open>refined\<close> be the mask of
  \<^verbatim>\<open>refine_aseg\<close>. Every \<open>zval\<close> beyond some threshold lies above the z-score of each
  candidate voxel whose window holds a positive gray-matter intensity. Whatever \<open>zval\<close> is,
  the loop returns a mask, \<^verbatim>\<open>grow_mask\<close> returns the opening of that mask, and a
  candidate whose window holds no positive gray-matter intensity (and whose auxiliary code
  is not 2) is 0 in the mask of the loop. For a \<open>zval\<close> above those z-scores, a candidate
  is 1 in the mask of the loop exactly when its auxiliary code is 2, or its window holds a
  positive gray-matter intensity and its z-score is a finite number. The intensity of the
  candidate itself, positive or not, plays no part beyond its z-score.
\<close>

theorem grow_mask_large_zval:
  assumes sh: "shape (anat st) = shape (aseg st)"
    and an: "ants_segs st = None \<or> (\<exists>a. ants_segs st = Some a \<and> shape a = shape (aseg st))"
    and r: "refine_aseg (aseg st) 4 = Some refined"
  shows
    "(\<exists>Z. \<forall>zval > Z.
        \<forall>q \<in> set (argwhere_positive (candidate_shell refined (ball bw))).
          filter (\<lambda>v. v > 0) (gm_window (gm_template (anat st) (collapse (aseg st))) q ww) \<noteq> [] \<longrightarrow>
          (\<forall>z. zs (filter (\<lambda>v. v > 0) (gm_window (gm_template (anat st) (collapse (aseg st))) q ww))
                 (item (anat st) q) = Some z \<longrightarrow> z < zval)) \<and>
     (\<forall>zval. \<exists>grown.
        grow_loop (grow_step zs (gm_template (anat st) (collapse (aseg st))) (anat st)
                     (ants_or_zeros st) ww zval)
          refined (argwhere_positive (candidate_shell refined (ball bw))) = Some grown \<and>
        grow_mask zs st ww zval bw =
          Some (binary_opening (nonzero grown) (ball bw), st\<lparr>aseg := collapse (aseg st)\<rparr>) \<and>
        (\<forall>p \<in> set (argwhere_positive (candidate_shell refined (ball bw))).
           (item (ants_or_zeros st) p \<noteq> 2 \<and>
            filter (\<lambda>v. v > 0) (gm_window (gm_template (anat st) (collapse (aseg st))) p ww) = []
              \<longrightarrow> item grown p = 0) \<and>
           ((\<forall>q \<in> set (argwhere_positive (candidate_shell refined (ball bw))).
               filter (\<lambda>v. v > 0) (gm_window (gm_template (anat st) (collapse (aseg st))) q ww) \<noteq> [] \<longrightarrow>
               (\<forall>z. zs (filter (\<lambda>v. v > 0) (gm_window (gm_template (anat st) (collapse (aseg st))) q ww))
                      (item (anat st) q) = Some z \<longrightarrow> z < zval))
            \<longrightarrow> (item grown p = 1 \<longleftrightarrow>
                   item (ants_or_zeros st) p = 2 \<or>
                   (filter (\<lambda>v. v > 0) (gm_window (gm_template (anat st) (collapse (aseg st))) p ww) \<noteq> [] \<and>
                    zs (filter (\<lambda>v. v > 0) (gm_window (gm_template (anat st) (collapse (aseg st))) p ww))
                       (item (anat st) p) \<noteq> None)))))"
proof (rule conjI)
  let ?gm = "gm_template (anat st) (collapse (aseg st))"
  let ?cands = "argwhere_positive (candidate_shell refined (ball bw))"
  let ?pos = "\<lambda>q. filter (\<lambda>v. v > 0) (gm_window ?gm q ww)"
  let ?g = "\<lambda>q. if ?pos q \<noteq> [] then zs (?pos q) (item (anat st) q) else None"
  from threshold_exists[of ?cands ?g] obtain Z where
    Z: "\<forall>zval > Z. \<forall>q \<in> set ?cands. \<forall>z. ?g q = Some z \<longrightarrow> z < zval" by blast
  have "\<forall>zval > Z. \<forall>q \<in> set ?cands. ?pos q \<noteq> [] \<longrightarrow>
           (\<forall>z. zs (?pos q) (item (anat st) q) = Some z \<longrightarrow> z < zval)"
  proof (intro allI impI ballI)
    fix zval q z
    assume "Z < zval" "q \<in> set ?cands" "?pos q \<noteq> []" "zs (?pos q) (item (anat st) q) = Some z"
    moreover from this have "?g q = Some z" by simp
    ultimately show "z < zval" using Z by blast
  qed
  then show "\<exists>Z. \<forall>zval > Z. \<forall>q \<in> set ?cands. ?pos q \<noteq> [] \<longrightarrow>
           (\<forall>z. zs (?pos q) (item (anat st) q) = Some z \<longrightarrow> z < zval)"
    by blast
next
  let ?gm = "gm_template (anat st) (collapse (aseg st))"
  let ?cands = "argwhere_positive (candidate_shell refined (ball bw))"
  let ?pos = "\<lambda>q. filter (\<lambda>v. v > 0) (gm_window ?gm q ww)"
  let ?ants = "ants_or_zeros st"
  have inb: "in_bounds (shape ?ants) q \<and> in_bounds (shape (anat st)) q"
    if "q \<in> set ?cands" for q
    using that by (simp add: mem_argwhere_positive shape_ants_or_zeros[OF an] sh refine_aseg_shape[OF r])
  have ref0: "item refined q = 0" if "q \<in> set ?cands" for q
    using that unfolding mem_candidates[OF r] by simp
  show "\<forall>zval. \<exists>grown.
        grow_loop (grow_step zs ?gm (anat st) ?ants ww zval) refined ?cands = Some grown \<and>
        grow_mask zs st ww zval bw =
          Some (binary_opening (nonzero grown) (ball bw), st\<lparr>aseg := collapse (aseg st)\<rparr>) \<and>
        (\<forall>p \<in> set ?cands.
           (item ?ants p \<noteq> 2 \<and> ?pos p = [] \<longrightarrow> item grown p = 0) \<and>
           ((\<forall>q \<in> set ?cands. ?pos q \<noteq> [] \<longrightarrow>
               (\<forall>z. zs (?pos q) (item (anat st) q) = Some z \<longrightarrow> z < zval))
            \<longrightarrow> (item grown p = 1 \<longleftrightarrow>
                   item ?ants p = 2 \<or> (?pos p \<noteq> [] \<and> zs (?pos p) (item (anat st) p) \<noteq> None))))"
  proof
    fix zval
    define grown where "grown = NDArray (shape refined)
        (\<lambda>q. if q \<in> set ?cands
             then (case pixel_decision zs ?gm (anat st) ?ants ww zval q of
                     Some (Some v) \<Rightarrow> v | _ \<Rightarrow> item refined q)
             else item refined q)"
    have loop: "grow_loop (grow_step zs ?gm (anat st) ?ants ww zval) refined ?cands = Some grown"
      unfolding grown_def by (rule grow_loop_returns) (rule inb)
    have gmk: "grow_mask zs st ww zval bw =
        Some (binary_opening (nonzero grown) (ball bw), st\<lparr>aseg := collapse (aseg st)\<rparr>)"
      unfolding grown_def by (rule grow_mask_returns[OF sh an r])
    have val: "item grown p =
         (if item ?ants p = 2 then 1
          else if ?pos p = [] then 0
          else if zstat_below (zs (?pos p) (item (anat st) p)) zval then 1 else 0)"
      if "p \<in> set ?cands" for p
      unfolding grown_def
      using item_grown[OF that conjunct1[OF inb[OF that]] conjunct2[OF inb[OF that]],
          where s = "shape refined" and zs = zs and gm = ?gm and ww = ww and zval = zval
            and refined = refined] ref0[OF that]
      by simp
    have none: "item ?ants p \<noteq> 2 \<and> ?pos p = [] \<longrightarrow> item grown p = 0"
      if "p \<in> set ?cands" for p
      by (simp add: val[OF that])
    have large: "item grown p = 1 \<longleftrightarrow>
          item ?ants p = 2 \<or> (?pos p \<noteq> [] \<and> zs (?pos p) (item (anat st) p) \<noteq> None)"
      if p: "p \<in> set ?cands"
        and ex: "\<forall>q \<in> set ?cands. ?pos q \<noteq> [] \<longrightarrow>
               (\<forall>z. zs (?pos q) (item (anat st) q) = Some z \<longrightarrow> z < zval)" for p
    proof -
      have "zstat_below (zs (?pos p) (item (anat st) p)) zval \<longleftrightarrow>
            zs (?pos p) (item (anat st) p) \<noteq> None" if "?pos p \<noteq> []"
        using ex p that by (cases "zs (?pos p) (item (anat st) p)") (auto simp: zstat_below_def)
      then show ?thesis by (auto simp: val[OF p])
    qed
    show "\<exists>grown.
        grow_loop (grow_step zs ?gm (anat st) ?ants ww zval) refined ?cands = Some grown \<and>
        grow_mask zs st ww zval bw =
          Some (binary_opening (nonzero grown) (ball bw), st\<lparr>aseg := collapse (aseg st)\<rparr>) \<and>
        (\<forall>p \<in> set ?cands.
           (item ?ants p \<noteq> 2 \<and> ?pos p = [] \<longrightarrow> item grown p = 0) \<and>
           ((\<forall>q \<in> set ?cands. ?pos q \<noteq> [] \<longrightarrow>
               (\<forall>z. zs (?pos q) (item (anat st) q) = Some z \<longrightarrow> z < zval))
            \<longrightarrow> (item grown p = 1 \<longleftrightarrow>
                   item ?ants p = 2 \<or> (?pos p \<noteq> [] \<and> zs (?pos p) (item (anat st) p) \<noteq> None))))"
      using loop gmk none large by (intro exI[of _ grown] conjI ballI impI) blast+
  qed
qed

lemma binarize_line6_gm: "binarize line6_gm_labels = binarize line6_labels"
  by (auto simp: binarize_def astype_uint8_def set_where_def copy_def line6_gm_labels_def
      line6_labels_def)

lemma refine_aseg_line6_gm: "refine_aseg line6_gm_labels r = refine_aseg line6_labels r"
  by (simp add: refine_aseg_def binarize_line6_gm)

lemma line6_window:
  "window_indices (6, 1, 1) (1, 0, 0) 7 =
     [(0, 0, 0), (1, 0, 0), (2, 0, 0), (3, 0, 0), (4, 0, 0), (5, 0, 0)]"
  by (simp add: slice_indices_def slice_bound_def upto.simps)

lemma line6_gm_window:
  "filter (\<lambda>v. v > 0)
     (gm_window (gm_template (NDArray (6, 1, 1) f) (collapse line6_gm_labels)) (1, 0, 0) 7) =
   (if f (0, 0, 0) > 0 then [f (0, 0, 0)] else [])"
  by (simp add: gm_window_def gm_template_def collapse_def line6_gm_labels_def line6_window
      del: One_nat_def window_indices.simps)

lemma no_gm_window:
  assumes "\<And>q. item labels q \<noteq> 3 \<and> item labels q \<noteq> 42"
  shows "filter (\<lambda>v. v > 0) (gm_window (gm_template an (collapse labels)) p ww) = []"
  using assms by (simp add: gm_window_def gm_template_def collapse_def filter_empty_conv)

lemma exact_zstat_single: "exact_zstat [x] x = Some 0"
  by (simp add: exact_zstat_def mean_def std_def)

text \<open>
  The run with \<open>zval = 1000\<close> on the line of six voxels without gray matter, for any
  floating-point computation of the z-score: the test is never reached.
\<close>

lemma line6_large_zval:
  "\<exists>refined.
      refine_aseg (aseg line6_arrays) 4 = Some refined \<and>
      (1, 0, 0) \<in> set (argwhere_positive (candidate_shell refined (ball 4))) \<and>
      0 < item (anat line6_arrays) (1, 0, 0) \<and>
      grow_loop (grow_step zs (gm_template (anat line6_arrays) (collapse (aseg line6_arrays)))
          (anat line6_arrays) (ants_or_zeros line6_arrays) 7 1000)
        refined (argwhere_positive (candidate_shell refined (ball 4))) = Some refined \<and>
      grow_mask zs line6_arrays 7 1000 4 =
        Some (binary_opening (nonzero refined) (ball 4),
              line6_arrays\<lparr>aseg := collapse (aseg line6_arrays)\<rparr>) \<and>
      \<not> item (binary_opening (nonzero refined) (ball 4)) (1, 0, 0)"
proof -
  let ?st = line6_arrays
  let ?gm = "gm_template (anat ?st) (collapse (aseg ?st))"
  from refine_aseg_returns[of line6_labels 4] obtain refined where
    r: "refine_aseg line6_labels 4 = Some refined" by blast
  let ?cands = "argwhere_positive (candidate_shell refined (ball 4))"
  have ra: "refine_aseg (aseg ?st) 4 = Some refined" by (simp add: line6_arrays_def r)
  have sh: "shape (anat ?st) = shape (aseg ?st)" by (simp add: line6_arrays_def line6_labels_def)
  have an: "ants_segs ?st = None \<or> (\<exists>a. ants_segs ?st = Some a \<and> shape a = shape (aseg ?st))"
    by (simp add: line6_arrays_def)
  have c: "(1, 0, 0) \<in> set ?cands" by (rule line6_candidate[OF r])
  have d: "pixel_decision zs ?gm (anat ?st) (ants_or_zeros ?st) 7 1000 q = Some None"
    if "q \<in> set ?cands" for q
  proof (rule pixel_decision_no_gm)
    from that show "in_bounds (shape (ants_or_zeros ?st)) q"
      by (simp add: mem_argwhere_positive shape_ants_or_zeros[OF an] refine_aseg_shape[OF ra])
    show "item (ants_or_zeros ?st) q \<noteq> 2"
      by (simp add: ants_or_zeros_def line6_arrays_def zeros_like_def)
    show "filter (\<lambda>v. v > 0) (gm_window ?gm q 7) = []"
      by (rule no_gm_window) (simp add: line6_arrays_def line6_labels_def)
  qed
  have same: "NDArray (shape refined)
        (\<lambda>q. if q \<in> set ?cands
             then (case pixel_decision zs ?gm (anat ?st) (ants_or_zeros ?st) 7 1000 q of
                     Some (Some v) \<Rightarrow> v | _ \<Rightarrow> item refined q)
             else item refined q) = refined"
    using d by (cases refined) (auto intro!: ext)
  have inb: "in_bounds (shape (ants_or_zeros ?st)) q \<and> in_bounds (shape (anat ?st)) q"
    if "q \<in> set ?cands" for q
    using that by (simp add: mem_argwhere_positive shape_ants_or_zeros[OF an] sh refine_aseg_shape[OF ra])
  have loop: "grow_loop (grow_step zs ?gm (anat ?st) (ants_or_zeros ?st) 7 1000) refined ?cands = Some refined"
    using grow_loop_returns[of ?cands "ants_or_zeros ?st" "anat ?st" zs ?gm 7 1000 refined, OF inb]
    by (simp only: same)
  have g: "grow_mask zs ?st 7 1000 4 =
      Some (binary_opening (nonzero refined) (ball 4), ?st\<lparr>aseg := collapse (aseg ?st)\<rparr>)"
    using grow_mask_returns[OF sh an ra, of zs 7 1000 4] by (simp only: same)
  have o: "\<not> item (binary_opening (nonzero refined) (ball 4)) (1, 0, 0)"
    by (rule line6_opening[OF r])
  have a: "0 < item (anat ?st) (1, 0, 0)" by (simp add: line6_arrays_def)
  show ?thesis using ra c a loop g o by blast
qed

text \<open>
  C7 as stated fails, for \<open>zval = 1000\<close>. On the line of six voxels, its first voxel
  labelled 17 (not gray matter), under the intensity 100 everywhere: the second voxel is a
  candidate of positive intensity, no window holds a gray-matter intensity, so no z-score
  is computed, the loop returns the mask of \<^verbatim>\<open>refine_aseg\<close> unchanged, and the voxel is
  not in the mask that \<^verbatim>\<open>grow_mask\<close> returns.
\<close>

theorem large_zval_excludes_candidates:
  "refine_aseg (aseg line6_arrays) 4 \<noteq> None \<and>
   (1, 0, 0) \<in> set (argwhere_positive
      (candidate_shell (the (refine_aseg (aseg line6_arrays) 4)) (ball 4))) \<and>
   0 < item (anat line6_arrays) (1, 0, 0) \<and>
   grow_loop (grow_step exact_zstat (gm_template (anat line6_arrays) (collapse (aseg line6_arrays)))
       (anat line6_arrays) (ants_or_zeros line6_arrays) 7 1000)
     (the (refine_aseg (aseg line6_arrays) 4))
     (argwhere_positive (candidate_shell (the (refine_aseg (aseg line6_arrays) 4)) (ball 4)))
     = Some (the (refine_aseg (aseg line6_arrays) 4)) \<and>
   item (the (refine_aseg (aseg line6_arrays) 4)) (1, 0, 0) = 0 \<and>
   grow_mask exact_zstat line6_arrays 7 1000 4 \<noteq> None \<and>
   \<not> item (fst (the (grow_mask exact_zstat line6_arrays 7 1000 4))) (1, 0, 0)"
proof -
  from line6_large_zval[of exact_zstat] obtain refined where
    a: "refine_aseg (aseg line6_arrays) 4 = Some refined"
      "(1, 0, 0) \<in> set (argwhere_positive (candidate_shell refined (ball 4)))"
      "0 < item (anat line6_arrays) (1, 0, 0)"
      "grow_loop (grow_step exact_zstat (gm_template (anat line6_arrays) (collapse (aseg line6_arrays)))
          (anat line6_arrays) (ants_or_zeros line6_arrays) 7 1000)
        refined (argwhere_positive (candidate_shell refined (ball 4))) = Some refined"
      "grow_mask exact_zstat line6_arrays 7 1000 4 =
        Some (binary_opening (nonzero refined) (ball 4),
              line6_arrays\<lparr>aseg := collapse (aseg line6_arrays)\<rparr>)"
      "\<not> item (binary_opening (nonzero refined) (ball 4)) (1, 0, 0)"
    by blast
  have z: "item refined (1, 0, 0) = 0"
    using a(2) unfolding mem_candidates[OF a(1)] by simp
  show ?thesis
    by (simp only: a(1,5) option.sel fst_conv) (simp add: a z)
qed

theorem grow_mask_large_zval_witness:
  "shape (anat line6_gm_arrays) = shape (aseg line6_gm_arrays) \<and>
   ants_segs line6_gm_arrays = None \<and>
   (\<exists>refined.
      refine_aseg (aseg line6_gm_arrays) 4 = Some refined \<and>
      (1, 0, 0) \<in> set (argwhere_positive (candidate_shell refined (ball 4))) \<and>
      filter (\<lambda>v. v > 0)
        (gm_window (gm_template (anat line6_gm_arrays) (collapse (aseg line6_gm_arrays)))
           (1, 0, 0) 7) = [100] \<and>
      exact_zstat [100] (item (anat line6_gm_arrays) (1, 0, 0)) = Some 0 \<and>
      (\<exists>Z. \<forall>zval > Z. \<exists>grown.
         grow_loop (grow_step exact_zstat
             (gm_template (anat line6_gm_arrays) (collapse (aseg line6_gm_arrays)))
             (anat line6_gm_arrays) (ants_or_zeros line6_gm_arrays) 7 zval)
           refined (argwhere_positive (candidate_shell refined (ball 4))) = Some grown \<and>
         item grown (1, 0, 0) = 1 \<and>
         grow_mask exact_zstat line6_gm_arrays 7 zval 4 =
           Some (binary_opening (nonzero grown) (ball 4),
                 line6_gm_arrays\<lparr>aseg := collapse (aseg line6_gm_arrays)\<rparr>)))"
proof -
  let ?st = line6_gm_arrays
  let ?gm = "gm_template (anat ?st) (collapse (aseg ?st))"
  from refine_aseg_returns[of line6_labels 4] obtain refined where
    r: "refine_aseg line6_labels 4 = Some refined" by blast
  let ?cands = "argwhere_positive (candidate_shell refined (ball 4))"
  have ra: "refine_aseg (aseg ?st) 4 = Some refined"
    by (simp add: line6_gm_arrays_def refine_aseg_line6_gm r)
  have sh: "shape (anat ?st) = shape (aseg ?st)"
    by (simp add: line6_gm_arrays_def line6_gm_labels_def)
  have n: "ants_segs ?st = None" by (simp add: line6_gm_arrays_def)
  then have an: "ants_segs ?st = None \<or> (\<exists>a. ants_segs ?st = Some a \<and> shape a = shape (aseg ?st))"
    by simp
  have c: "(1, 0, 0) \<in> set ?cands"
    by (rule line6_candidate[OF r])
  have w: "filter (\<lambda>v. v > 0) (gm_window ?gm (1, 0, 0) 7) = [100]"
    by (simp add: line6_gm_arrays_def line6_gm_window del: One_nat_def)
  have a: "item (anat ?st) (1, 0, 0) = 100" by (simp add: line6_gm_arrays_def)
  have e: "exact_zstat [100] (item (anat ?st) (1, 0, 0)) = Some 0"
    by (simp only: a exact_zstat_single)
  note inst = grow_mask_large_zval[OF sh an ra, of 4 7 exact_zstat]
  from conjunct1[OF inst] obtain Z where
    Z: "\<forall>zval > Z. \<forall>q \<in> set ?cands.
          filter (\<lambda>v. v > 0) (gm_window ?gm q 7) \<noteq> [] \<longrightarrow>
          (\<forall>z. exact_zstat (filter (\<lambda>v. v > 0) (gm_window ?gm q 7)) (item (anat ?st) q) = Some z
               \<longrightarrow> z < zval)"
    by blast
  have "\<exists>grown.
         grow_loop (grow_step exact_zstat ?gm (anat ?st) (ants_or_zeros ?st) 7 zval) refined ?cands
           = Some grown \<and>
         item grown (1, 0, 0) = 1 \<and>
         grow_mask exact_zstat ?st 7 zval 4 =
           Some (binary_opening (nonzero grown) (ball 4), ?st\<lparr>aseg := collapse (aseg ?st)\<rparr>)"
    if zv: "Z < zval" for zval
  proof -
    from conjunct2[OF inst, rule_format, of zval] obtain grown where
      g: "grow_loop (grow_step exact_zstat ?gm (anat ?st) (ants_or_zeros ?st) 7 zval) refined ?cands
            = Some grown"
        "grow_mask exact_zstat ?st 7 zval 4 =
           Some (binary_opening (nonzero grown) (ball 4), ?st\<lparr>aseg := collapse (aseg ?st)\<rparr>)"
        "\<forall>p \<in> set ?cands.
           (item (ants_or_zeros ?st) p \<noteq> 2 \<and> filter (\<lambda>v. v > 0) (gm_window ?gm p 7) = []
              \<longrightarrow> item grown p = 0) \<and>
           ((\<forall>q \<in> set ?cands.
               filter (\<lambda>v. v > 0) (gm_window ?gm q 7) \<noteq> [] \<longrightarrow>
               (\<forall>z. exact_zstat (filter (\<lambda>v. v > 0) (gm_window ?gm q 7)) (item (anat ?st) q) = Some z
                    \<longrightarrow> z < zval))
            \<longrightarrow> (item grown p = 1 \<longleftrightarrow>
                   item (ants_or_zeros ?st) p = 2 \<or>
                   (filter (\<lambda>v. v > 0) (gm_window ?gm p 7) \<noteq> [] \<and>
                    exact_zstat (filter (\<lambda>v. v > 0) (gm_window ?gm p 7)) (item (anat ?st) p) \<noteq> None)))"
      by blast
    from Z zv have ex: "\<forall>q \<in> set ?cands.
          filter (\<lambda>v. v > 0) (gm_window ?gm q 7) \<noteq> [] \<longrightarrow>
          (\<forall>z. exact_zstat (filter (\<lambda>v. v > 0) (gm_window ?gm q 7)) (item (anat ?st) q) = Some z
               \<longrightarrow> z < zval)"
      by blast
    from g(3) c ex have "item grown (1, 0, 0) = 1 \<longleftrightarrow>
        item (ants_or_zeros ?st) (1, 0, 0) = 2 \<or>
        (filter (\<lambda>v. v > 0) (gm_window ?gm (1, 0, 0) 7) \<noteq> [] \<and>
         exact_zstat (filter (\<lambda>v. v > 0) (gm_window ?gm (1, 0, 0) 7)) (item (anat ?st) (1, 0, 0))
           \<noteq> None)"
      by blast
    then have "item grown (1, 0, 0) = 1" by (simp only: w e) simp
    with g(1,2) show ?thesis by blast
  qed
  with sh n ra c w e show ?thesis by blast
qed

section \<open>Further properties\<close>

lemma collapse_idem: "collapse (collapse a) = collapse a"
  by (auto simp: collapse_def set_where_def)

lemma shape_collapse [simp]: "shape (collapse a) = shape a"
  by (simp add: collapse_def)

text \<open>
  Relabelling the voxels of the right hemisphere (42) as 3 before the call changes nothing
  that \<^verbatim>\<open>grow_mask\<close> returns or leaves behind.
\<close>

theorem grow_mask_relabelled:
  "grow_mask zs (st\<lparr>aseg := collapse (aseg st)\<rparr>) ww zval bw = grow_mask zs st ww zval bw"
proof -
  let ?st = "st\<lparr>aseg := collapse (aseg st)\<rparr>"
  have 1: "shape (aseg ?st) = shape (aseg st)" "anat ?st = anat st" by simp_all
  have 2: "refine_aseg (aseg ?st) 4 = refine_aseg (aseg st) 4"
    by (simp add: collapse_def refine_aseg_collapse)
  have 3: "collapse (aseg ?st) = collapse (aseg st)" by (simp add: collapse_idem)
  have 4: "ants_or_zeros ?st = ants_or_zeros st"
    by (cases "ants_segs st") (simp_all add: ants_or_zeros_def zeros_like_def)
  have 5: "?st\<lparr>aseg := collapse (aseg st)\<rparr> = st\<lparr>aseg := collapse (aseg st)\<rparr>"
    by simp
  show ?thesis
    unfolding grow_mask_eq[of _ ?st] grow_mask_eq[of _ st] 1 2 3 4 5 ..
qed

theorem grow_mask_relabelled_witness:
  "item (aseg hemisphere_arrays) (0, 0, 0) = 42 \<and>
   item (aseg (hemisphere_arrays\<lparr>aseg := collapse (aseg hemisphere_arrays)\<rparr>)) (0, 0, 0) = 3 \<and>
   grow_mask exact_zstat (hemisphere_arrays\<lparr>aseg := collapse (aseg hemisphere_arrays)\<rparr>) 7 2 4 =
     grow_mask exact_zstat hemisphere_arrays 7 2 4"
  using grow_mask_relabelled[of exact_zstat hemisphere_arrays 7 2 4]
  by (simp add: hemisphere_arrays_def collapse_def)

text \<open>
  \<^verbatim>\<open>refine_aseg\<close> returns for every label volume and every radius (the flood of
  \<^verbatim>\<open>binary_fill_holes\<close> ends), with a mask of the shape of the labels that holds 0
  and 1 only.
\<close>

theorem refine_aseg_total:
  "\<exists>out. refine_aseg labels ball_size = Some out \<and> shape out = shape labels \<and>
     (\<forall>p. item out p = 0 \<or> item out p = 1)"
proof -
  from refine_aseg_returns[of labels ball_size] obtain out where
    o: "refine_aseg labels ball_size = Some out" by blast
  with refine_aseg_shape[OF o] refine_aseg_binary[OF o] show ?thesis by blast
qed

theorem refine_aseg_total_witness:
  "\<exists>out. refine_aseg negative_label_volume 0 = Some out \<and> shape out = (1, 1, 1) \<and>
     (item out (0, 0, 0) = 0 \<or> item out (0, 0, 0) = 1)"
  using refine_aseg_total[of negative_label_volume 0]
  by (auto simp: negative_label_volume_def)

text \<open>
  What \<^verbatim>\<open>grow_mask\<close> leaves behind when it returns: the anatomical volume and the
  auxiliary segmentation of the caller as they were, and the labels of the caller with
  every 42 replaced by 3.
\<close>

theorem grow_mask_frame_effect:
  assumes "grow_mask zs st ww zval bw = Some (out, st')"
  shows "anat st' = anat st \<and> ants_segs st' = ants_segs st \<and>
         aseg st' = set_where (\<lambda>v. v = 42) 3 (aseg st)"
  using grow_mask_frame[OF assms] by (simp add: collapse_def)

theorem grow_mask_frame_effect_witness:
  "\<exists>out st'. grow_mask exact_zstat hemisphere_arrays 7 2 4 = Some (out, st') \<and>
      anat st' = anat hemisphere_arrays \<and> ants_segs st' = None \<and>
      item (aseg st') (0, 0, 0) = 3"
proof -
  from refine_aseg_returns[of "aseg hemisphere_arrays" 4] obtain refined where
    r: "refine_aseg (aseg hemisphere_arrays) 4 = Some refined" by blast
  have sh: "shape (anat hemisphere_arrays) = shape (aseg hemisphere_arrays)"
    by (simp add: hemisphere_arrays_def)
  have an: "ants_segs hemisphere_arrays = None \<or>
      (\<exists>a. ants_segs hemisphere_arrays = Some a \<and> shape a = shape (aseg hemisphere_arrays))"
    by (simp add: hemisphere_arrays_def)
  from grow_mask_returns[OF sh an r, of exact_zstat 7 2 4] obtain out st' where
    g: "grow_mask exact_zstat hemisphere_arrays 7 2 4 = Some (out, st')"
    by blast
  from grow_mask_frame_effect[OF g] g show ?thesis
    by (auto simp: hemisphere_arrays_def)
qed

text \<open>
  A voxel that is less than \<open>ww\<close> away from the lower edge of the first axis, on an axis
  of at least \<open>2 * ww\<close> voxels, reads an empty window: the statistical test leaves the
  mask as it is, whatever the intensities.
\<close>

theorem window_empty_near_lower_edge:
  assumes "0 \<le> i" "i < ww" "2 * ww \<le> int nx"
  shows "window_indices (nx, ny, nz) (i, j, k) ww = [] \<and>
         gm_window (NDArray (nx, ny, nz) f) (i, j, k) ww = [] \<and>
         zscore_step zs (NDArray (nx, ny, nz) f) an ww zval refined (i, j, k) = Some refined"
proof -
  have w: "window_indices (nx, ny, nz) (i, j, k) ww = []"
    by (rule window_empty_at_lower_edge[OF assms])
  then have g: "gm_window (NDArray (nx, ny, nz) f) (i, j, k) ww = []"
    by (simp add: gm_window_def del: window_indices.simps)
  then have "zscore_step zs (NDArray (nx, ny, nz) f) an ww zval refined (i, j, k) = Some refined"
    by (simp add: zscore_step_def)
  with w g show ?thesis by simp
qed

theorem window_empty_near_lower_edge_witness:
  "(0 :: int) \<le> 3 \<and> (3 :: int) < 7 \<and> 2 * 7 \<le> int 20 \<and>
   window_indices (20, 20, 20) (3, 10, 10) 7 = [] \<and>
   zscore_step exact_zstat (NDArray (20, 20, 20) (\<lambda>p. 100)) pair_intensity 7 2 pair_refined (3, 10, 10)
     = Some pair_refined"
  using window_empty_near_lower_edge[of 3 7 20 20 20 10 10 "\<lambda>p. 100" exact_zstat pair_intensity 2 pair_refined]
  by simp

end
